theory Spec2Isabelle
  imports Complex_Main
begin

section \<open>Geo projection and height scaling (frontend Map component)\<close>

text \<open>
  The Map component works on JavaScript numbers, which are doubles. The model uses
  \<^typ>\<open>real\<close>. Positions, offsets and distances are given in the exact arithmetic that the
  doubles approximate. The footprint size is treated differently, because it is compared with
  the thresholds of the height scale, where a rounding error changes the result: it is
  computed as the code computes it, with every operation rounded (see \<open>footprintSize\<close>).
\<close>

record bounds =
  minLng :: real
  maxLng :: real
  minLat :: real
  maxLat :: real

text \<open>\<^verbatim>\<open>private bounds = { minLng: 39.6, maxLng: 40.0, minLat: 21.2, maxLat: 21.6 }\<close>\<close>

definition map_bounds :: bounds where
  "map_bounds = \<lparr> minLng = 39.6, maxLng = 40.0, minLat = 21.2, maxLat = 21.6 \<rparr>"

text \<open>A scene position \<^verbatim>\<open>{ x, z }\<close> is the pair \<open>(x, z)\<close>.\<close>

type_synonym scene_pos = "real \<times> real"

definition geoToScene :: "real \<Rightarrow> real \<Rightarrow> scene_pos" where
  "geoToScene lng lat =
     (let x = ((lng - minLng map_bounds) / (maxLng map_bounds - minLng map_bounds)) * 1000 - 500;
          z = ((lat - minLat map_bounds) / (maxLat map_bounds - minLat map_bounds)) * 1000 - 500
      in (x, z))"

text \<open>
  \<^verbatim>\<open>geometry.coordinates[0]\<close>: the outer ring, a list of \<^verbatim>\<open>[lng, lat]\<close> points
  (a third elevation entry, when present, is never read).
\<close>

type_synonym ring = "(real \<times> real) list"

text \<open>
  \<^verbatim>\<open>geometry.type === 'Polygon' && geometry.coordinates\<close> selects \<open>Polygon\<close>; every other
  geometry is skipped by the callers.
\<close>

datatype geometry = Polygon "ring list" | OtherGeometry

text \<open>
  \<^verbatim>\<open>building.height\<close> arrives either as a string or as a number. \<open>HeightString v\<close> is a
  string that \<^verbatim>\<open>parseFloat\<close> reads as \<open>v\<close>; \<open>HeightNumber v\<close> is the number \<open>v\<close>.
\<close>

datatype height_field = HeightString real | HeightNumber real

record building =
  building_id :: int
  name :: string
  height :: height_field
  building_type :: string
  address :: string
  geometry :: geometry

text \<open>
  \<^verbatim>\<open>typeof building.height === 'string' ? parseFloat(building.height) : building.height || 20\<close>:
  the conditional binds weaker than \<^verbatim>\<open>||\<close>, so only a numeric zero falls back to 20.
\<close>

definition buildingHeight :: "building \<Rightarrow> real" where
  "buildingHeight b =
     (case height b of
        HeightString v \<Rightarrow> v
      | HeightNumber v \<Rightarrow> (if v = 0 then 20 else v))"

text \<open>
  \<^verbatim>\<open>coords.reduce((sum, coord) => sum + coord[0], 0) / coords.length\<close>, then \<^verbatim>\<open>geoToScene\<close>.
  On an empty ring JavaScript divides 0 by 0 and the centre is not a number: \<open>None\<close>.
\<close>

definition ringCenter :: "ring \<Rightarrow> scene_pos option" where
  "ringCenter coords =
     (if coords = [] then None
      else
        let centerLng = foldl (\<lambda>sum coord. sum + fst coord) 0 coords / real (length coords);
            centerLat = foldl (\<lambda>sum coord. sum + snd coord) 0 coords / real (length coords)
        in Some (geoToScene centerLng centerLat))"

text \<open>
  \<^verbatim>\<open>Math.min(minX, relX)\<close> and \<^verbatim>\<open>Math.max(maxX, relX)\<close> on an accumulator that starts at
  \<^verbatim>\<open>Infinity\<close> (respectively \<^verbatim>\<open>-Infinity\<close>): \<open>None\<close> is that initial value.
\<close>

fun mathMin :: "real option \<Rightarrow> real \<Rightarrow> real option" where
  "mathMin None v = Some v"
| "mathMin (Some a) v = Some (min a v)"

fun mathMax :: "real option \<Rightarrow> real \<Rightarrow> real option" where
  "mathMax None v = Some v"
| "mathMax (Some a) v = Some (max a v)"

text \<open>
  Double arithmetic for the footprint size. \<open>fl\<close> is the rounding of a real number to a
  double: the result of an operation on doubles is \<open>fl\<close> of the exact result, a literal such as
  \<^verbatim>\<open>39.6\<close> is \<open>fl 39.6\<close>, and a coordinate read from the GeoJSON text is \<open>fl\<close> of the decimal
  written there. The model takes \<open>fl\<close> as a parameter and nothing is assumed of it, so what is
  proved of the footprint size holds for the rounding of IEEE doubles as for every other;
  with the identity for \<open>fl\<close> the arithmetic is exact. (The integers 1000 and 500 and the
  length of the ring are doubles as they stand. Overflow and NaN are left out.)
\<close>

text \<open>\<^verbatim>\<open>geoToScene\<close> as it is computed: five rounded operations for each coordinate.\<close>

definition geoToSceneD :: "(real \<Rightarrow> real) \<Rightarrow> real \<Rightarrow> real \<Rightarrow> scene_pos" where
  "geoToSceneD fl lng lat =
     (let x = fl (fl (fl (fl (lng - fl (minLng map_bounds))
                          / fl (fl (maxLng map_bounds) - fl (minLng map_bounds))) * 1000) - 500);
          z = fl (fl (fl (fl (lat - fl (minLat map_bounds))
                          / fl (fl (maxLat map_bounds) - fl (minLat map_bounds))) * 1000) - 500)
      in (x, z))"

text \<open>The centre as it is computed: the sums of \<^verbatim>\<open>reduce\<close>, the division, the projection.\<close>

definition ringCenterD :: "(real \<Rightarrow> real) \<Rightarrow> ring \<Rightarrow> scene_pos option" where
  "ringCenterD fl coords =
     (if coords = [] then None
      else
        let centerLng = fl (foldl (\<lambda>sum coord. fl (sum + fl (fst coord))) 0 coords / real (length coords));
            centerLat = fl (foldl (\<lambda>sum coord. fl (sum + fl (snd coord))) 0 coords / real (length coords))
        in Some (geoToSceneD fl centerLng centerLat))"

text \<open>The bounding-box loop over the ring, relative to the centre, as it is computed.\<close>

fun footprintLoop ::
  "(real \<Rightarrow> real) \<Rightarrow> scene_pos \<Rightarrow> ring
     \<Rightarrow> real option \<times> real option \<times> real option \<times> real option
     \<Rightarrow> real option \<times> real option \<times> real option \<times> real option" where
  "footprintLoop fl centerPos [] acc = acc"
| "footprintLoop fl centerPos ((lng, lat) # rest) (minX, maxX, minZ, maxZ) =
     (let pointPos = geoToSceneD fl (fl lng) (fl lat);
          relX = fl (fst pointPos - fst centerPos);
          relZ = fl (snd pointPos - snd centerPos)
      in footprintLoop fl centerPos rest
           (mathMin minX relX, mathMax maxX relX, mathMin minZ relZ, mathMax maxZ relZ))"

text \<open>
  \<^verbatim>\<open>footprintSize = Math.max(maxX - minX, maxZ - minZ)\<close>, from the centre and the loop as
  they are computed. An accumulator still at its initial infinity (empty ring) gives no
  finite size: \<open>None\<close>.
\<close>

definition footprintSize :: "(real \<Rightarrow> real) \<Rightarrow> ring \<Rightarrow> real option" where
  "footprintSize fl coords =
     (case ringCenterD fl coords of
        None \<Rightarrow> None
      | Some centerPos \<Rightarrow>
          (case footprintLoop fl centerPos coords (None, None, None, None) of
             (Some minX, Some maxX, Some minZ, Some maxZ) \<Rightarrow>
               (let footprintWidth = fl (maxX - minX);
                    footprintDepth = fl (maxZ - minZ)
                in Some (max footprintWidth footprintDepth))
           | _ \<Rightarrow> None))"

definition heightScale :: "real \<Rightarrow> real" where
  "heightScale footprintSize' =
     (if footprintSize' < 5 then 0.3
      else if footprintSize' < 15 then 0.5
      else if footprintSize' < 30 then 0.7
      else 1.0)"

definition scaledHeight :: "real \<Rightarrow> real \<Rightarrow> real" where
  "scaledHeight buildingHeight' footprintSize' = buildingHeight' * heightScale footprintSize'"

type_synonym vec3 = "real \<times> real \<times> real"

text \<open>
  What one iteration of \<^verbatim>\<open>addBuildings\<close> hands to the scene for a building: the shape
  points (relative to the centre), the extrusion depth and the mesh position.
\<close>

record mesh =
  shape :: "(real \<times> real) list"
  depth :: real
  position :: vec3

text \<open>
  The body of the \<^verbatim>\<open>forEach\<close> in \<^verbatim>\<open>addBuildings\<close>, with the rounding \<open>fl\<close> for the
  footprint size. \<open>None\<close>: no mesh that the model can express. Either the building is skipped (not a polygon, or the \<^verbatim>\<open>try\<close> block threw on
  a polygon without a ring), or the ring is empty and the mesh is placed at a centre that is
  not a number.
\<close>

definition addBuilding :: "(real \<Rightarrow> real) \<Rightarrow> building \<Rightarrow> mesh option" where
  "addBuilding fl b =
     (case geometry b of
        Polygon (coords # _) \<Rightarrow>
          (case ringCenter coords of
             None \<Rightarrow> None
           | Some centerPos \<Rightarrow>
               (case footprintSize fl coords of
                  None \<Rightarrow> None
                | Some fs \<Rightarrow>
                    Some \<lparr> shape = map (\<lambda>(lng, lat).
                                    (fst (geoToScene lng lat) - fst centerPos,
                                     snd (geoToScene lng lat) - snd centerPos)) coords,
                           depth = scaledHeight (buildingHeight b) fs,
                           position = (fst centerPos, 0, snd centerPos) \<rparr>))
      | _ \<Rightarrow> None)"

text \<open>
  The camera state \<^verbatim>\<open>flyToBuilding\<close> writes: \<^verbatim>\<open>camera.position\<close> and
  \<^verbatim>\<open>controls.target\<close>. \<open>None\<close> is a state without finite camera coordinates: a component
  whose camera or controls are not yet created (nothing is written), or the state after
  flying to an empty ring, whose centre is not a number. A building that is not a polygon,
  or a polygon without a ring (the \<^verbatim>\<open>try\<close> block throws), leaves the state as it is.
  \<^verbatim>\<open>controls.update()\<close> is three.js code and is not part of the model. \<open>fl\<close> is the
  rounding for the footprint size.
\<close>

record view =
  cameraPosition :: vec3
  controlsTarget :: vec3

definition flyToBuilding ::
  "(real \<Rightarrow> real) \<Rightarrow> building \<Rightarrow> view option \<Rightarrow> view option" where
  "flyToBuilding fl b v =
     (case geometry b of
        Polygon (coords # _) \<Rightarrow>
          (case ringCenter coords of
             None \<Rightarrow> None
           | Some centerPos \<Rightarrow>
               (case footprintSize fl coords of
                  None \<Rightarrow> None
                | Some fs \<Rightarrow>
                    (case v of
                       None \<Rightarrow> None
                     | Some view \<Rightarrow>
                         (let sh = scaledHeight (buildingHeight b) fs;
                              buildingSize = max fs sh;
                              distance = max (buildingSize * 2.5) 30;
                              angle = pi / 4
                          in Some (view \<lparr>
                               cameraPosition :=
                                 (fst centerPos - distance * cos angle,
                                  sh + distance * sin angle,
                                  snd centerPos + distance * sin angle),
                               controlsTarget := (fst centerPos, sh / 2, snd centerPos) \<rparr>)))))
      | _ \<Rightarrow> v)"

text \<open>
  The centroid of a list of scene points (mean of the x and of the z coordinates), in
  the words of the specification; used to state the round-trip property.
\<close>

definition spec_centroid :: "scene_pos list \<Rightarrow> scene_pos" where
  "spec_centroid ps =
     (sum_list (map fst ps) / real (length ps), sum_list (map snd ps) / real (length ps))"

text \<open>Euclidean distance of two scene points in space, and in the ground plane.\<close>

definition dist3 :: "vec3 \<Rightarrow> vec3 \<Rightarrow> real" where
  "dist3 p q =
     (case (p, q) of
        ((px, py, pz), (qx, qy, qz)) \<Rightarrow> sqrt ((px - qx)\<^sup>2 + (py - qy)\<^sup>2 + (pz - qz)\<^sup>2))"

definition distXZ :: "vec3 \<Rightarrow> vec3 \<Rightarrow> real" where
  "distXZ p q =
     (case (p, q) of
        ((px, py, pz), (qx, qy, qz)) \<Rightarrow> sqrt ((px - qx)\<^sup>2 + (pz - qz)\<^sup>2))"

text \<open>
  The footprint size in the words of the specification: the larger of the width and the
  depth of the bounding box of the projected ring.
\<close>

definition spec_footprint :: "ring \<Rightarrow> real" where
  "spec_footprint coords =
     max (Max ((\<lambda>p. fst (geoToScene (fst p) (snd p))) ` set coords)
            - Min ((\<lambda>p. fst (geoToScene (fst p) (snd p))) ` set coords))
         (Max ((\<lambda>p. snd (geoToScene (fst p) (snd p))) ` set coords)
            - Min ((\<lambda>p. snd (geoToScene (fst p) (snd p))) ` set coords))"

text \<open>
  The footprint size as it is computed, written with the bounding box: the larger of the
  rounded width and the rounded depth of the box around the rounded offsets of the ring
  points from the computed centre.
\<close>

definition spec_footprint_rounded :: "(real \<Rightarrow> real) \<Rightarrow> ring \<Rightarrow> real" where
  "spec_footprint_rounded fl coords =
     (case ringCenterD fl coords of
        None \<Rightarrow> 0
      | Some c \<Rightarrow>
          max (fl (Max ((\<lambda>p. fl (fst (geoToSceneD fl (fl (fst p)) (fl (snd p))) - fst c)) ` set coords)
                   - Min ((\<lambda>p. fl (fst (geoToSceneD fl (fl (fst p)) (fl (snd p))) - fst c)) ` set coords)))
              (fl (Max ((\<lambda>p. fl (snd (geoToSceneD fl (fl (fst p)) (fl (snd p))) - snd c)) ` set coords)
                   - Min ((\<lambda>p. fl (snd (geoToSceneD fl (fl (fst p)) (fl (snd p))) - snd c)) ` set coords))))"

text \<open>
  The height of a building in the words of the specification: the value of its height
  field.
\<close>

definition spec_real_height :: "building \<Rightarrow> real" where
  "spec_real_height b = (case height b of HeightString v \<Rightarrow> v | HeightNumber v \<Rightarrow> v)"

text \<open>
  The fly-to framing in the words of the specification: the camera is at distance \<open>d\<close> from
  the centre and sees it under an elevation of 45 degrees (its rise above the centre equals
  its run in the ground plane).
\<close>

definition spec_fly_to_framing :: "vec3 \<Rightarrow> vec3 \<Rightarrow> real \<Rightarrow> bool" where
  "spec_fly_to_framing cam centre d \<longleftrightarrow>
     dist3 cam centre = d \<and> fst (snd cam) - fst (snd centre) = distXZ cam centre"

text \<open>
  A square footprint of 10 by 10 scene units (closed ring of five points) with a height of
  20 metres, and a view to fly from.
\<close>

definition square_ring :: ring where
  "square_ring =
     [(39.798, 21.398), (39.802, 21.398), (39.802, 21.402), (39.798, 21.402), (39.798, 21.398)]"

definition square_building :: building where
  "square_building =
     \<lparr> building_id = 1, name = ''Square'', height = HeightString 20,
       building_type = ''office'', address = ''Street 1'',
       geometry = Polygon [square_ring] \<rparr>"

text \<open>The same footprint with a numeric height of 60, and with a numeric height of 0.\<close>

definition office_building :: building where
  "office_building = square_building \<lparr> height := HeightNumber 60 \<rparr>"

definition zero_height_building :: building where
  "zero_height_building = square_building \<lparr> height := HeightNumber 0 \<rparr>"

definition initial_view :: view where
  "initial_view = \<lparr> cameraPosition = (0, 1500, 1500), controlsTarget = (0, 0, 0) \<rparr>"

section \<open>JavaScript strings and regular expressions (backend)\<close>

text \<open>
  A message is a \<^typ>\<open>string\<close>: a list of code units below 256, read as the characters
  U+0000 to U+00FF. On these, \<^verbatim>\<open>toLowerCase\<close> moves A-Z and the accented capitals
  U+00C0-U+00DE (without the multiplication sign U+00D7) up by 32 and keeps the rest.
\<close>

definition lowerChar :: "char \<Rightarrow> char" where
  "lowerChar c =
     (let n = of_char c :: nat in
      if (65 \<le> n \<and> n \<le> 90) \<or> (192 \<le> n \<and> n \<le> 222 \<and> n \<noteq> 215) then char_of (n + 32) else c)"

definition toLowerCase :: "string \<Rightarrow> string" where
  "toLowerCase s = map lowerChar s"

text \<open>\<^verbatim>\<open>s.includes(sub)\<close>: \<open>sub\<close> occurs in \<open>s\<close> as a contiguous substring.\<close>

fun "includes" :: "string \<Rightarrow> string \<Rightarrow> bool" where
  "includes [] sub = (sub = [])"
| "includes (c # cs) sub = (take (length sub) (c # cs) = sub \<or> includes cs sub)"

text \<open>
  The regular expressions of the chatbot are built from literals, \<^verbatim>\<open>\d\<close>, \<^verbatim>\<open>\s\<close>,
  sequence, alternation, the greedy star and numbered capturing groups; a non-capturing
  group \<^verbatim>\<open>(?:...)\<close> is only bracketing.
\<close>

datatype regex =
    Lit char
  | Digit
  | Space
  | Eps
  | Seq regex regex
  | Alt regex regex
  | Star regex
  | Group nat regex

text \<open>\<^verbatim>\<open>r+\<close> and \<^verbatim>\<open>r?\<close>, both greedy.\<close>

definition Plus :: "regex \<Rightarrow> regex" where
  "Plus r = Seq r (Star r)"

definition Opt :: "regex \<Rightarrow> regex" where
  "Opt r = Alt r Eps"

text \<open>A word of the pattern, letter by letter.\<close>

definition lits :: "string \<Rightarrow> regex" where
  "lits w = foldr (\<lambda>c r. Seq (Lit c) r) w Eps"

definition isDigit :: "char \<Rightarrow> bool" where
  "isDigit c \<longleftrightarrow> 48 \<le> (of_char c :: nat) \<and> (of_char c :: nat) \<le> 57"

text \<open>
  \<^verbatim>\<open>\s\<close> on code units below 256: tab, line feed, vertical tab, form feed, carriage
  return, space and the no-break space.
\<close>

definition isSpace :: "char \<Rightarrow> bool" where
  "isSpace c \<longleftrightarrow> (of_char c :: nat) \<in> {9, 10, 11, 12, 13, 32, 160}"

text \<open>
  \<^verbatim>\<open>Canonicalize\<close> of ECMAScript for the \<^verbatim>\<open>i\<close> flag without \<^verbatim>\<open>u\<close>: the upper-case
  code unit, when there is exactly one and it does not turn a non-ASCII character into an
  ASCII one. The result is a code unit number, since U+00FF and U+00B5 have their capitals
  (U+0178, U+039C) above 255; U+00DF has a two-letter capital and stays.
\<close>

definition canonicalize :: "char \<Rightarrow> nat" where
  "canonicalize c =
     (let n = of_char c :: nat in
      if 97 \<le> n \<and> n \<le> 122 then n - 32
      else if 224 \<le> n \<and> n \<le> 254 \<and> n \<noteq> 247 then n - 32
      else if n = 255 then 376
      else if n = 181 then 924
      else n)"

definition litMatches :: "bool \<Rightarrow> char \<Rightarrow> char \<Rightarrow> bool" where
  "litMatches ignoreCase c x = (if ignoreCase then canonicalize x = canonicalize c else x = c)"

text \<open>
  The captures array of a match: entry 0 is the whole match, entry \<open>n\<close> the text of
  group \<open>n\<close>; \<open>None\<close> is \<^verbatim>\<open>undefined\<close>.
\<close>

type_synonym captures = "string option list"

text \<open>
  The backtracking matcher, as the list of all ways \<open>r\<close> can match a prefix of \<open>s\<close>, in the
  order in which backtracking tries them: each entry is the rest of the input and the
  captures so far. A star first tries one more iteration, then stops; an iteration that
  consumes nothing is not considered.
\<close>

fun ms :: "bool \<Rightarrow> regex \<Rightarrow> string \<Rightarrow> captures \<Rightarrow> (string \<times> captures) list" where
  "ms ic (Lit c) s caps =
     (case s of x # rest \<Rightarrow> if litMatches ic c x then [(rest, caps)] else [] | [] \<Rightarrow> [])"
| "ms ic Digit s caps =
     (case s of x # rest \<Rightarrow> if isDigit x then [(rest, caps)] else [] | [] \<Rightarrow> [])"
| "ms ic Space s caps =
     (case s of x # rest \<Rightarrow> if isSpace x then [(rest, caps)] else [] | [] \<Rightarrow> [])"
| "ms ic Eps s caps = [(s, caps)]"
| "ms ic (Seq r1 r2) s caps =
     concat (map (\<lambda>(s', caps'). ms ic r2 s' caps') (ms ic r1 s caps))"
| "ms ic (Alt r1 r2) s caps = ms ic r1 s caps @ ms ic r2 s caps"
| "ms ic (Star r) s caps =
     concat (map (\<lambda>(s', caps'). if length s' < length s then ms ic (Star r) s' caps' else [])
                 (ms ic r s caps))
     @ [(s, caps)]"
| "ms ic (Group n r) s caps =
     map (\<lambda>(s', caps'). (s', caps'[n := Some (take (length s - length s') s)])) (ms ic r s caps)"

text \<open>
  \<^verbatim>\<open>s.match(re)\<close> for a regular expression without the \<^verbatim>\<open>g\<close> flag: the first start
  position, from the left, at which the pattern matches, with the first way it matches
  there; \<open>None\<close> is \<^verbatim>\<open>null\<close>. \<open>ngroups\<close> is the number of capturing groups.
\<close>

fun regexMatch :: "bool \<Rightarrow> regex \<Rightarrow> nat \<Rightarrow> string \<Rightarrow> captures option" where
  "regexMatch ic r ngroups s =
     (case ms ic r s (replicate (Suc ngroups) None) of
        (rest, caps) # _ \<Rightarrow> Some (caps[0 := Some (take (length s - length rest) s)])
      | [] \<Rightarrow> (case s of [] \<Rightarrow> None | _ # s' \<Rightarrow> regexMatch ic r ngroups s'))"

text \<open>
  \<^verbatim>\<open>parseInt\<close> and \<^verbatim>\<open>parseFloat\<close> are only applied to the text of a \<^verbatim>\<open>(\d+)\<close> group,
  where both read the decimal number. The number is kept exact (a double rounds a digit
  string above 2^53).
\<close>

definition parseDigits :: "string \<Rightarrow> nat" where
  "parseDigits s = foldl (\<lambda>n c. 10 * n + ((of_char c :: nat) - 48)) 0 (takeWhile isDigit s)"

definition parseInt :: "string \<Rightarrow> nat" where
  "parseInt s = parseDigits s"

definition parseFloat :: "string \<Rightarrow> nat" where
  "parseFloat s = parseDigits s"

text \<open>The decimal text of a number, for \<^verbatim>\<open>$${paramCount}\<close>.\<close>

fun showNat :: "nat \<Rightarrow> string" where
  "showNat n =
     (if n < 10 then [char_of (48 + n)] else showNat (n div 10) @ [char_of (48 + n mod 10)])"

text \<open>The five patterns; all carry the \<^verbatim>\<open>i\<close> flag.\<close>

text \<open>\<^verbatim>\<open>(?:meters?|m)\<close>\<close>

definition unit_re :: regex where
  "unit_re = Alt (Seq (lits ''meter'') (Opt (Lit CHR ''s''))) (Lit CHR ''m'')"

text \<open>\<^verbatim>\<open>/top\s+(\d+)/i\<close>\<close>

definition top_re :: regex where
  "top_re = Seq (lits ''top'') (Seq (Plus Space) (Group 1 (Plus Digit)))"

text \<open>\<^verbatim>\<open>/(\d+)\s*(?:to|-)\s*(\d+)\s*(?:meters?|m)/i\<close>\<close>

definition range_re :: regex where
  "range_re =
     Seq (Group 1 (Plus Digit)) (Seq (Star Space) (Seq (Alt (lits ''to'') (Lit CHR ''-''))
       (Seq (Star Space) (Seq (Group 2 (Plus Digit)) (Seq (Star Space) unit_re)))))"

text \<open>\<^verbatim>\<open>/(\d+)\s*(?:meters?|m)/i\<close>\<close>

definition single_re :: regex where
  "single_re = Seq (Group 1 (Plus Digit)) (Seq (Star Space) unit_re)"

text \<open>\<^verbatim>\<open>/over\s+(\d+)\s*(?:meters?|m)/i\<close>\<close>

definition over_re :: regex where
  "over_re = Seq (lits ''over'') (Seq (Plus Space) (Seq (Group 1 (Plus Digit)) (Seq (Star Space) unit_re)))"

text \<open>\<^verbatim>\<open>/under\s+(\d+)\s*(?:meters?|m)/i\<close>\<close>

definition under_re :: regex where
  "under_re = Seq (lits ''under'') (Seq (Plus Space) (Seq (Group 1 (Plus Digit)) (Seq (Star Space) unit_re)))"

text \<open>The text of group \<open>n\<close> of a match (\<^verbatim>\<open>m[n]\<close>); the empty text if the group is undefined.\<close>

definition grp :: "captures \<Rightarrow> nat \<Rightarrow> string" where
  "grp m n = (if n < length m then (case m ! n of Some t \<Rightarrow> t | None \<Rightarrow> []) else [])"

section \<open>The chatbot service (backend/src/services/chatbot.js)\<close>

text \<open>
  A query is the SQL text with its bound parameters. The store answers with rows or throws.
  A row maps column names to the text of the value.
\<close>

datatype param = PNumber nat | PText string | PTextArray "string list"

type_synonym sql_query = "string \<times> param list"

type_synonym row = "(string \<times> string) list"

datatype db_error = DbError string

type_synonym pool = "sql_query \<Rightarrow> db_error + row list"

datatype response_type = Text | BuildingHighlight | SearchResults

text \<open>
  The \<^verbatim>\<open>content\<close> of a response. A fixed message without decoration is \<open>Plain\<close> with its
  text. A message built by a template literal is the template with the values it
  interpolates (the rendering, with its emoji and \<^verbatim>\<open>toFixed\<close>, is a function of these).
\<close>

datatype content =
    Plain string
  | HelpText
  | NearbyPrompt
  | TallestText row
  | ShortestText row
  | TopText nat "row list"
  | CompareText row row
  | RangeText nat nat "row list"
  | RangeEmptyText nat nat
  | TypeAnalysisText "row list"
  | SearchText "row list" "string list" "(string \<times> string) option" "string option" "string option"
  | StatisticsText "row list"
  | SpecificText row
  | SpecificMissingText string
  | AddressText "row list"
  | TotalCountText row
  | CountText "row list"
  | CountEmptyText "string list"

text \<open>\<open>None\<close> in \<open>building\<close> or \<open>buildings\<close>: the response object has no such field.\<close>

record ChatResponse =
  rtype :: response_type
  content :: content
  building :: "row option"
  buildings :: "row list option"

text \<open>\<^verbatim>\<open>{ type: 'text', content: ... }\<close>\<close>

definition textResponse :: "content \<Rightarrow> ChatResponse" where
  "textResponse c = \<lparr> rtype = Text, content = c, building = None, buildings = None \<rparr>"

text \<open>
  What a handler does: the queries it sent to the store, in order, and the response it
  returns.
\<close>

type_synonym outcome = "sql_query list \<times> ChatResponse"

definition selectBuildings :: string where
  "selectBuildings =
     ''SELECT id, name, height, building_type, address, ST_AsGeoJSON(geometry) as geometry FROM buildings''"

definition getTallestBuilding :: "pool \<Rightarrow> outcome" where
  "getTallestBuilding pool =
     (let q = (selectBuildings @ '' ORDER BY height DESC LIMIT 1'', []) in
      case pool q of
        Inl error \<Rightarrow>
          ([q], textResponse
                  (Plain ''Sorry, I encountered an error while searching for the tallest building.''))
      | Inr rows \<Rightarrow>
          (case rows of
             b # _ \<Rightarrow>
               ([q], \<lparr> rtype = BuildingHighlight, content = TallestText b,
                       building = Some b, buildings = None \<rparr>)
           | [] \<Rightarrow> ([q], textResponse (Plain ''No building data available in the database.''))))"

definition getShortestBuilding :: "pool \<Rightarrow> outcome" where
  "getShortestBuilding pool =
     (let q = (selectBuildings @ '' ORDER BY height ASC LIMIT 1'', []) in
      case pool q of
        Inl error \<Rightarrow>
          ([q], textResponse
                  (Plain ''Sorry, I encountered an error while searching for the shortest building.''))
      | Inr rows \<Rightarrow>
          (case rows of
             b # _ \<Rightarrow>
               ([q], \<lparr> rtype = BuildingHighlight, content = ShortestText b,
                       building = Some b, buildings = None \<rparr>)
           | [] \<Rightarrow> ([q], textResponse (Plain ''No building data available in the database.''))))"

definition getTopBuildings :: "pool \<Rightarrow> nat \<Rightarrow> outcome" where
  "getTopBuildings pool limit =
     (let q = (selectBuildings @ '' ORDER BY height DESC LIMIT $1'', [PNumber limit]) in
      case pool q of
        Inl error \<Rightarrow>
          ([q], textResponse
                  (Plain ''Sorry, I encountered an error while retrieving the top buildings.''))
      | Inr rows \<Rightarrow>
          (if length rows > 0
           then ([q], \<lparr> rtype = SearchResults, content = TopText limit rows,
                         building = None, buildings = Some rows \<rparr>)
           else ([q], textResponse (Plain ''No building data available in the database.''))))"

definition buildingNames :: "string list" where
  "buildingNames = [''empire state'', ''world trade'', ''chrysler'', ''bank of america'', ''new york times'']"

definition buildingTypes :: "string list" where
  "buildingTypes = [''office'', ''residential'', ''commercial'', ''hotel'', ''apartment'', ''retail'', ''industrial'']"

definition addressKeywords :: "string list" where
  "addressKeywords = [''street'', ''avenue'', ''ave'', ''st'', ''road'', ''rd'', ''boulevard'', ''blvd'']"

text \<open>\<^verbatim>\<open>`%${name}%`\<close>\<close>

definition likePattern :: "string \<Rightarrow> string" where
  "likePattern w = ''%'' @ w @ ''%''"

definition compareBuildings :: "pool \<Rightarrow> string \<Rightarrow> outcome" where
  \<open>compareBuildings pool message =
     (let foundBuildings = filter (\<lambda>name. includes (toLowerCase message) name) buildingNames in
      if length foundBuildings < 2
      then ([], textResponse
                  (Plain ''Please specify two buildings to compare. Try: "Compare Empire State Building vs One World Trade Center"''))
      else
        let q = (selectBuildings @ '' WHERE LOWER(name) LIKE ANY($1) ORDER BY height DESC'',
                 [PTextArray (map likePattern foundBuildings)]) in
        case pool q of
          Inl error \<Rightarrow>
            ([q], textResponse (Plain ''Sorry, I encountered an error while comparing buildings.''))
        | Inr rows \<Rightarrow>
            (case rows of
               building1 # building2 # _ \<Rightarrow>
                 ([q], \<lparr> rtype = SearchResults, content = CompareText building1 building2,
                         building = None, buildings = Some rows \<rparr>)
             | _ \<Rightarrow>
                 ([q], textResponse (Plain ''Could not find the specified buildings for comparison.''))))\<close>

definition getHeightRangeAnalysis :: "pool \<Rightarrow> string \<Rightarrow> outcome" where
  "getHeightRangeAnalysis pool message =
     (let heightMatch = regexMatch True range_re 2 message;
          minHeight = (case heightMatch of Some m \<Rightarrow> parseFloat (grp m 1) | None \<Rightarrow> 100);
          maxHeight = (case heightMatch of Some m \<Rightarrow> parseFloat (grp m 2) | None \<Rightarrow> 500);
          q = (selectBuildings @ '' WHERE height BETWEEN $1 AND $2 ORDER BY height DESC'',
               [PNumber minHeight, PNumber maxHeight]) in
      case pool q of
        Inl error \<Rightarrow>
          ([q], textResponse
                  (Plain ''Sorry, I encountered an error while analyzing height ranges.''))
      | Inr rows \<Rightarrow>
          (if length rows > 0
           then ([q], \<lparr> rtype = SearchResults, content = RangeText minHeight maxHeight rows,
                         building = None, buildings = Some rows \<rparr>)
           else ([q], textResponse (RangeEmptyText minHeight maxHeight))))"

text \<open>The SQL of the two aggregate queries is written on one line here.\<close>

definition getBuildingTypeAnalysis :: "pool \<Rightarrow> outcome" where
  "getBuildingTypeAnalysis pool =
     (let q = (''SELECT building_type, COUNT(*) as count, AVG(height) as avg_height, MAX(height) as max_height, MIN(height) as min_height FROM buildings GROUP BY building_type ORDER BY count DESC'', []) in
      case pool q of
        Inl error \<Rightarrow>
          ([q], textResponse
                  (Plain ''Sorry, I encountered an error while analyzing building types.''))
      | Inr rows \<Rightarrow>
          (if length rows > 0
           then ([q], textResponse (TypeAnalysisText rows))
           else ([q], textResponse (Plain ''No building data available for type analysis.''))))"

text \<open>
  \<^verbatim>\<open>searchBuildings\<close>. The query text and the parameter list grow together; the height
  filter is chosen by the first of the four matches that is not \<^verbatim>\<open>null\<close>, in the order
  range, single height, over, under. The content interpolates \<^verbatim>\<open>foundTypes\<close>, groups 1 and 2
  of the range match and group 1 of the over and under matches, each when present.
\<close>

definition searchBuildings :: "pool \<Rightarrow> string \<Rightarrow> outcome" where
  "searchBuildings pool message =
     (let foundTypes = filter (\<lambda>type. includes (toLowerCase message) type) buildingTypes;
          heightMatch = regexMatch True range_re 2 message;
          singleHeightMatch = regexMatch True single_re 1 message;
          overHeightMatch = regexMatch True over_re 1 message;
          underHeightMatch = regexMatch True under_re 1 message;
          query0 = selectBuildings @ '' WHERE 1=1'';
          params0 = [];
          paramCount0 = (0::nat);
          (query1, params1, paramCount1) =
            (if length foundTypes > 0
             then (query0 @ '' AND building_type ILIKE ANY($'' @ showNat (paramCount0 + 1) @ '')'',
                   params0 @ [PTextArray (map likePattern foundTypes)],
                   paramCount0 + 1)
             else (query0, params0, paramCount0));
          (query2, params2) =
            (case heightMatch of
               Some m \<Rightarrow>
                 (query1 @ '' AND height >= $'' @ showNat (paramCount1 + 1)
                         @ '' AND height <= $'' @ showNat (paramCount1 + 2),
                  params1 @ [PNumber (parseFloat (grp m 1)), PNumber (parseFloat (grp m 2))])
             | None \<Rightarrow>
                 (case singleHeightMatch of
                    Some m \<Rightarrow>
                      (query1 @ '' AND height >= $'' @ showNat (paramCount1 + 1),
                       params1 @ [PNumber (parseFloat (grp m 1))])
                  | None \<Rightarrow>
                      (case overHeightMatch of
                         Some m \<Rightarrow>
                           (query1 @ '' AND height > $'' @ showNat (paramCount1 + 1),
                            params1 @ [PNumber (parseFloat (grp m 1))])
                       | None \<Rightarrow>
                           (case underHeightMatch of
                              Some m \<Rightarrow>
                                (query1 @ '' AND height < $'' @ showNat (paramCount1 + 1),
                                 params1 @ [PNumber (parseFloat (grp m 1))])
                            | None \<Rightarrow> (query1, params1)))));
          q = (query2 @ '' ORDER BY height DESC LIMIT 10'', params2) in
      case pool q of
        Inl error \<Rightarrow>
          ([q], textResponse (Plain ''Sorry, I encountered an error while searching for buildings.''))
      | Inr rows \<Rightarrow>
          (if length rows > 0
           then ([q], \<lparr> rtype = SearchResults,
                         content =
                           SearchText rows foundTypes
                             (map_option (\<lambda>m. (grp m 1, grp m 2)) heightMatch)
                             (map_option (\<lambda>m. grp m 1) overHeightMatch)
                             (map_option (\<lambda>m. grp m 1) underHeightMatch),
                         building = None, buildings = Some rows \<rparr>)
           else ([q], textResponse
                        (Plain ''No buildings found matching your search criteria. Try different keywords or height ranges.''))))"

definition getBuildingStatistics :: "pool \<Rightarrow> outcome" where
  "getBuildingStatistics pool =
     (let q = (''SELECT COUNT(*) as total_buildings, AVG(height) as avg_height, MAX(height) as max_height, MIN(height) as min_height, building_type, COUNT(*) as count_by_type FROM buildings GROUP BY building_type ORDER BY count_by_type DESC'', []) in
      case pool q of
        Inl error \<Rightarrow>
          ([q], textResponse
                  (Plain ''Sorry, I encountered an error while retrieving building statistics.''))
      | Inr rows \<Rightarrow>
          (if length rows > 0
           then ([q], textResponse (StatisticsText rows))
           else ([q], textResponse (Plain ''No building data available for statistics.''))))"

definition getSpecificBuilding :: "pool \<Rightarrow> string \<Rightarrow> outcome" where
  \<open>getSpecificBuilding pool message =
     (case find (\<lambda>name. includes (toLowerCase message) name) buildingNames of
        None \<Rightarrow>
          ([], textResponse
                 (Plain ''Please specify a building name. Try: "Tell me about Empire State Building"''))
      | Some foundName \<Rightarrow>
          (let q = (selectBuildings @ '' WHERE LOWER(name) LIKE $1'', [PText (likePattern foundName)]) in
           case pool q of
             Inl error \<Rightarrow>
               ([q], textResponse
                       (Plain ''Sorry, I encountered an error while searching for the building.''))
           | Inr rows \<Rightarrow>
               (case rows of
                  b # _ \<Rightarrow>
                    ([q], \<lparr> rtype = BuildingHighlight, content = SpecificText b,
                            building = Some b, buildings = None \<rparr>)
                | [] \<Rightarrow> ([q], textResponse (SpecificMissingText foundName)))))\<close>

definition searchByAddress :: "pool \<Rightarrow> string \<Rightarrow> outcome" where
  \<open>searchByAddress pool message =
     (let foundKeywords = filter (\<lambda>keyword. includes (toLowerCase message) keyword) addressKeywords in
      if length foundKeywords = 0
      then ([], textResponse
                  (Plain ''Please specify an address or street name. Try: "Find buildings on 5th Avenue"''))
      else
        let q = (selectBuildings @ '' WHERE LOWER(address) LIKE ANY($1) ORDER BY height DESC'',
                 [PTextArray (map likePattern foundKeywords)]) in
        case pool q of
          Inl error \<Rightarrow>
            ([q], textResponse (Plain ''Sorry, I encountered an error while searching by address.''))
        | Inr rows \<Rightarrow>
            (if length rows > 0
             then ([q], \<lparr> rtype = SearchResults, content = AddressText rows,
                           building = None, buildings = Some rows \<rparr>)
             else ([q], textResponse
                          (Plain ''No buildings found at the specified address or street.''))))\<close>

text \<open>
  \<^verbatim>\<open>getBuildingCount\<close>. Without a type word the total is read from \<^verbatim>\<open>result.rows[0]\<close>;
  on an empty result that read throws a TypeError inside the \<^verbatim>\<open>try\<close>, and the
  \<^verbatim>\<open>catch\<close> answers as for a store error.
\<close>

definition getBuildingCount :: "pool \<Rightarrow> string \<Rightarrow> outcome" where
  "getBuildingCount pool message =
     (let foundTypes = filter (\<lambda>type. includes (toLowerCase message) type) buildingTypes in
      if length foundTypes = 0
      then
        (let q = (''SELECT COUNT(*) as total FROM buildings'', []) in
         case pool q of
           Inl error \<Rightarrow>
             ([q], textResponse (Plain ''Sorry, I encountered an error while counting buildings.''))
         | Inr rows \<Rightarrow>
             (case rows of
                r # _ \<Rightarrow> ([q], textResponse (TotalCountText r))
              | [] \<Rightarrow>
                  ([q], textResponse
                          (Plain ''Sorry, I encountered an error while counting buildings.''))))
      else
        (let q = (''SELECT building_type, COUNT(*) as count FROM buildings WHERE building_type ILIKE ANY($1) GROUP BY building_type'',
                  [PTextArray (map likePattern foundTypes)]) in
         case pool q of
           Inl error \<Rightarrow>
             ([q], textResponse (Plain ''Sorry, I encountered an error while counting buildings.''))
         | Inr rows \<Rightarrow>
             (if length rows > 0
              then ([q], textResponse (CountText rows))
              else ([q], textResponse (CountEmptyText foundTypes)))))"

definition getNearbyBuildings :: "pool \<Rightarrow> string \<Rightarrow> outcome" where
  "getNearbyBuildings pool message = ([], textResponse NearbyPrompt)"

definition processQuery :: "pool \<Rightarrow> string \<Rightarrow> outcome" where
  "processQuery pool message =
     (let lowerMessage = toLowerCase message in
      if includes lowerMessage ''tallest'' \<or> includes lowerMessage ''highest''
         \<or> includes lowerMessage ''maximum height''
      then getTallestBuilding pool
      else if includes lowerMessage ''shortest'' \<or> includes lowerMessage ''lowest''
         \<or> includes lowerMessage ''minimum height''
      then getShortestBuilding pool
      else if includes lowerMessage ''top''
         \<and> (includes lowerMessage ''buildings'' \<or> includes lowerMessage ''tallest'')
      then
        (let numberMatch = regexMatch True top_re 1 lowerMessage;
             limit = (case numberMatch of Some m \<Rightarrow> parseInt (grp m 1) | None \<Rightarrow> 5)
         in getTopBuildings pool limit)
      else if includes lowerMessage ''compare'' \<or> includes lowerMessage ''difference''
         \<or> includes lowerMessage ''vs'' \<or> includes lowerMessage ''versus''
      then compareBuildings pool message
      else if includes lowerMessage ''height range'' \<or> includes lowerMessage ''between''
         \<or> includes lowerMessage ''tall buildings'' \<or> includes lowerMessage ''skyscrapers''
      then getHeightRangeAnalysis pool message
      else if includes lowerMessage ''type''
         \<and> (includes lowerMessage ''distribution'' \<or> includes lowerMessage ''breakdown''
              \<or> includes lowerMessage ''category'')
      then getBuildingTypeAnalysis pool
      else if includes lowerMessage ''search'' \<or> includes lowerMessage ''find''
         \<or> includes lowerMessage ''show'' \<or> includes lowerMessage ''list''
      then searchBuildings pool message
      else if includes lowerMessage ''statistics'' \<or> includes lowerMessage ''stats''
         \<or> includes lowerMessage ''summary'' \<or> includes lowerMessage ''overview''
      then getBuildingStatistics pool
      else if includes lowerMessage ''near'' \<or> includes lowerMessage ''around''
         \<or> includes lowerMessage ''within'' \<or> includes lowerMessage ''distance''
      then getNearbyBuildings pool message
      else if includes lowerMessage ''empire state'' \<or> includes lowerMessage ''world trade''
         \<or> includes lowerMessage ''chrysler''
      then getSpecificBuilding pool message
      else if includes lowerMessage ''address'' \<or> includes lowerMessage ''location''
         \<or> includes lowerMessage ''street''
      then searchByAddress pool message
      else if includes lowerMessage ''how many'' \<or> includes lowerMessage ''count''
         \<or> includes lowerMessage ''total number''
      then getBuildingCount pool message
      else ([], textResponse HelpText))"

text \<open>
  The intents in the priority order of the specification, each with its trigger on the
  lower-cased message, and the first-match rule.
\<close>

datatype intent =
    Tallest | Shortest | TopN | Compare | HeightRange | TypeDistribution | Search
  | Statistics | Nearby | SpecificBuilding | AddressSearch | Count | Help

definition anyOf :: "string \<Rightarrow> string list \<Rightarrow> bool" where
  "anyOf m ws = list_ex (\<lambda>w. includes m w) ws"

definition spec_intent_table :: "(intent \<times> (string \<Rightarrow> bool)) list" where
  "spec_intent_table =
     [(Tallest, \<lambda>m. anyOf m [''tallest'', ''highest'', ''maximum height'']),
      (Shortest, \<lambda>m. anyOf m [''shortest'', ''lowest'', ''minimum height'']),
      (TopN, \<lambda>m. includes m ''top'' \<and> anyOf m [''buildings'', ''tallest'']),
      (Compare, \<lambda>m. anyOf m [''compare'', ''difference'', ''vs'', ''versus'']),
      (HeightRange, \<lambda>m. anyOf m [''height range'', ''between'', ''tall buildings'', ''skyscrapers'']),
      (TypeDistribution, \<lambda>m. includes m ''type'' \<and> anyOf m [''distribution'', ''breakdown'', ''category'']),
      (Search, \<lambda>m. anyOf m [''search'', ''find'', ''show'', ''list'']),
      (Statistics, \<lambda>m. anyOf m [''statistics'', ''stats'', ''summary'', ''overview'']),
      (Nearby, \<lambda>m. anyOf m [''near'', ''around'', ''within'', ''distance'']),
      (SpecificBuilding, \<lambda>m. anyOf m [''empire state'', ''world trade'', ''chrysler'']),
      (AddressSearch, \<lambda>m. anyOf m [''address'', ''location'', ''street'']),
      (Count, \<lambda>m. anyOf m [''how many'', ''count'', ''total number''])]"

definition spec_classify :: "string \<Rightarrow> intent" where
  "spec_classify lowerMessage =
     (case find (\<lambda>(i, trigger). trigger lowerMessage) spec_intent_table of
        Some (i, trigger) \<Rightarrow> i
      | None \<Rightarrow> Help)"

text \<open>The handler of each intent, called as \<^verbatim>\<open>processQuery\<close> calls it.\<close>

fun run_handler :: "intent \<Rightarrow> pool \<Rightarrow> string \<Rightarrow> outcome" where
  "run_handler Tallest pool message = getTallestBuilding pool"
| "run_handler Shortest pool message = getShortestBuilding pool"
| "run_handler TopN pool message =
     (let numberMatch = regexMatch True top_re 1 (toLowerCase message);
          limit = (case numberMatch of Some m \<Rightarrow> parseInt (grp m 1) | None \<Rightarrow> 5)
      in getTopBuildings pool limit)"
| "run_handler Compare pool message = compareBuildings pool message"
| "run_handler HeightRange pool message = getHeightRangeAnalysis pool message"
| "run_handler TypeDistribution pool message = getBuildingTypeAnalysis pool"
| "run_handler Search pool message = searchBuildings pool message"
| "run_handler Statistics pool message = getBuildingStatistics pool"
| "run_handler Nearby pool message = getNearbyBuildings pool message"
| "run_handler SpecificBuilding pool message = getSpecificBuilding pool message"
| "run_handler AddressSearch pool message = searchByAddress pool message"
| "run_handler Count pool message = getBuildingCount pool message"
| "run_handler Help pool message = ([], textResponse HelpText)"

text \<open>The apology of a \<^verbatim>\<open>catch\<close> block: a plain text that starts as all of them do.\<close>

datatype json =
    JNull | JBool bool | JNumber real | JString string
  | JArray "json list" | JObject "(string \<times> json) list"

text \<open>
  The status rule of the chat route in the words of the specification: 400 when
  \<^verbatim>\<open>message\<close> is missing or is not a string.
\<close>

definition spec_chat_rejects :: "(string \<times> json) list \<Rightarrow> bool" where
  "spec_chat_rejects reqBody =
     (case map_of reqBody ''message'' of
        None \<Rightarrow> True
      | Some (JString text) \<Rightarrow> False
      | Some other \<Rightarrow> True)"







text \<open>
  Two properties of a pattern, used to show that the numbered groups of the chatbot's
  patterns capture digits only: \<open>digits_only r\<close> holds when \<open>r\<close> can only match digits, and
  \<open>groups_capture_digits r\<close> when every capturing group of \<open>r\<close> is such a pattern.
\<close>

fun digits_only :: "regex \<Rightarrow> bool" where
  "digits_only (Lit c) = False"
| "digits_only Digit = True"
| "digits_only Space = False"
| "digits_only Eps = True"
| "digits_only (Seq r1 r2) = (digits_only r1 \<and> digits_only r2)"
| "digits_only (Alt r1 r2) = (digits_only r1 \<and> digits_only r2)"
| "digits_only (Star r) = digits_only r"
| "digits_only (Group n r) = digits_only r"

fun groups_capture_digits :: "regex \<Rightarrow> bool" where
  "groups_capture_digits (Seq r1 r2) = (groups_capture_digits r1 \<and> groups_capture_digits r2)"
| "groups_capture_digits (Alt r1 r2) = (groups_capture_digits r1 \<and> groups_capture_digits r2)"
| "groups_capture_digits (Star r) = groups_capture_digits r"
| "groups_capture_digits (Group n r) = (digits_only r \<and> groups_capture_digits r)"
| "groups_capture_digits r = True"

text \<open>
  Lower-casing of a captures array and of a matcher result, and the property that every
  defined capture consists of digits.
\<close>

definition lowerCaps :: "captures \<Rightarrow> captures" where
  "lowerCaps caps = map (map_option (map lowerChar)) caps"

definition lowerResult :: "string \<times> captures \<Rightarrow> string \<times> captures" where
  "lowerResult x = (map lowerChar (fst x), lowerCaps (snd x))"

definition digit_caps :: "captures \<Rightarrow> bool" where
  "digit_caps caps \<longleftrightarrow> (\<forall>t. Some t \<in> set caps \<longrightarrow> list_all isDigit t)"

section \<open>The routes (backend/src/routes)\<close>

datatype http_body =
    ErrorBody string
  | ChatBody ChatResponse
  | RowBody row

record http_response =
  status :: nat
  body :: http_body

text \<open>\<^verbatim>\<open>!message\<close> on a value that is present: null, false, 0 and the empty string.\<close>

fun falsy :: "json \<Rightarrow> bool" where
  "falsy JNull = True"
| "falsy (JBool b) = (\<not> b)"
| "falsy (JNumber n) = (n = 0)"
| "falsy (JString s) = (s = [])"
| "falsy (JArray xs) = False"
| "falsy (JObject kvs) = False"

text \<open>
  \<^verbatim>\<open>router.post('/')\<close> of chat.js on the parsed request body (an object, given by its
  fields). A missing \<^verbatim>\<open>message\<close> is \<^verbatim>\<open>undefined\<close>. \<^verbatim>\<open>res.json\<close> answers with status 200.
  \<^verbatim>\<open>processQuery\<close> handles its own errors, so the \<^verbatim>\<open>catch\<close> of the route is not reached
  from it.
\<close>

definition post_chat :: "pool \<Rightarrow> (string \<times> json) list \<Rightarrow> http_response" where
  "post_chat pool reqBody =
     (case map_of reqBody ''message'' of
        None \<Rightarrow> \<lparr> status = 400, body = ErrorBody ''Message is required and must be a string'' \<rparr>
      | Some message \<Rightarrow>
          (if falsy message
           then \<lparr> status = 400, body = ErrorBody ''Message is required and must be a string'' \<rparr>
           else
             (case message of
                JString text \<Rightarrow> \<lparr> status = 200, body = ChatBody (snd (processQuery pool text)) \<rparr>
              | _ \<Rightarrow> \<lparr> status = 400, body = ErrorBody ''Message is required and must be a string'' \<rparr>)))"

text \<open>
  The GET routes of buildings.js in the order in which they are registered. A path is
  matched segment by segment; \<^verbatim>\<open>:id\<close> takes any non-empty segment, a fixed segment is
  compared without regard to case. The first route that matches serves the request.
  Segments are taken as they are sent (percent-escapes are not decoded).
\<close>

datatype route_handler =
    GetAll | GetTallest | GetSearch | GetNearby | GetStatistics | GetById | GetRandom | GetByType

datatype segment = Fixed string | Param string

definition buildings_routes :: "(segment list \<times> route_handler) list" where
  "buildings_routes =
     [([], GetAll),
      ([Fixed ''tallest''], GetTallest),
      ([Fixed ''search''], GetSearch),
      ([Fixed ''nearby''], GetNearby),
      ([Fixed ''statistics''], GetStatistics),
      ([Param ''id''], GetById),
      ([Fixed ''random''], GetRandom),
      ([Fixed ''type'', Param ''buildingType''], GetByType)]"

text \<open>The segments of a path: the non-empty pieces between slashes.\<close>

fun splitPath :: "string \<Rightarrow> string \<Rightarrow> string list" where
  "splitPath [] cur = (if cur = [] then [] else [cur])"
| "splitPath (c # cs) cur =
     (if c = CHR ''/'' then (if cur = [] then splitPath cs [] else cur # splitPath cs [])
      else splitPath cs (cur @ [c]))"

fun matchRoute :: "segment list \<Rightarrow> string list \<Rightarrow> (string \<times> string) list option" where
  "matchRoute [] [] = Some []"
| "matchRoute (Fixed w # ps) (s # ss) =
     (if toLowerCase s = toLowerCase w then matchRoute ps ss else None)"
| "matchRoute (Param n # ps) (s # ss) =
     (if s = [] then None
      else (case matchRoute ps ss of Some params \<Rightarrow> Some ((n, s) # params) | None \<Rightarrow> None))"
| "matchRoute _ _ = None"

fun dispatch ::
  "(segment list \<times> route_handler) list \<Rightarrow> string list
     \<Rightarrow> (route_handler \<times> (string \<times> string) list) option" where
  "dispatch [] path = None"
| "dispatch ((pattern, h) # routes) path =
     (case matchRoute pattern path of
        Some params \<Rightarrow> Some (h, params)
      | None \<Rightarrow> dispatch routes path)"

text \<open>\<^verbatim>\<open>router.get('/:id')\<close>: the handler that \<open>GetById\<close> names.\<close>

definition getBuildingById :: "pool \<Rightarrow> string \<Rightarrow> sql_query list \<times> http_response" where
  "getBuildingById pool ident =
     (let q = (selectBuildings @ '' WHERE id = $1'', [PText ident]) in
      case pool q of
        Inl (DbError msg) \<Rightarrow> ([q], \<lparr> status = 500, body = ErrorBody msg \<rparr>)
      | Inr rows \<Rightarrow>
          (case rows of
             [] \<Rightarrow> ([q], \<lparr> status = 404, body = ErrorBody ''Building not found'' \<rparr>)
           | r # _ \<Rightarrow> ([q], \<lparr> status = 200, body = RowBody r \<rparr>)))"

section \<open>Example stores\<close>

definition building_a :: row where
  "building_a = [(''id'', ''1''), (''name'', ''A''), (''height'', ''100''), (''building_type'', ''office'')]"

definition building_b :: row where
  "building_b = [(''id'', ''2''), (''name'', ''B''), (''height'', ''500''), (''building_type'', ''hotel'')]"

text \<open>A store that answers every query with the two rows, and one that always fails.\<close>

definition two_rows_pool :: pool where
  "two_rows_pool q = Inr [building_b, building_a]"

definition failing_pool :: pool where
  "failing_pool q = Inl (DbError ''connection refused'')"

text \<open>
  The integer column \<^verbatim>\<open>id\<close> of the buildings table: a store that rejects a by-id query
  whose parameter is not a decimal number, as PostgreSQL does, and finds no row otherwise.
\<close>

definition integer_id_pool :: pool where
  "integer_id_pool q =
     (case q of
        (sql, [PText t]) \<Rightarrow>
          (if sql = selectBuildings @ '' WHERE id = $1'' \<and> \<not> (t \<noteq> [] \<and> list_all isDigit t)
           then Inl (DbError (''invalid input syntax for type integer: '' @ t))
           else Inr [])
      | _ \<Rightarrow> Inr [])"

section \<open>Properties of the projection, the height scale and the camera\<close>

lemma foldl_add_sum_list:
  "foldl (\<lambda>sum coord. sum + f coord) a xs = a + sum_list (map f xs)" for a :: real
  by (induction xs arbitrary: a) simp_all

text \<open>
  Claim C3. \<^verbatim>\<open>geoToScene\<close> is the affine map
  \<open>x = (lng - 39.6) / (40.0 - 39.6) * 1000 - 500\<close>, \<open>z = (lat - 21.2) / (21.6 - 21.2) * 1000 - 500\<close>,
  defined for every input. Inside the bounding box both coordinates lie in \<open>[-500, 500]\<close>;
  outside the box nothing is clamped: the result leaves that range.
\<close>

theorem geoToScene_affine_in_box:
  "geoToScene lng lat =
     ((lng - 39.6) / (40.0 - 39.6) * 1000 - 500, (lat - 21.2) / (21.6 - 21.2) * 1000 - 500)
   \<and> (39.6 \<le> lng \<and> lng \<le> 40.0 \<and> 21.2 \<le> lat \<and> lat \<le> 21.6 \<longrightarrow>
        - 500 \<le> fst (geoToScene lng lat) \<and> fst (geoToScene lng lat) \<le> 500 \<and>
        - 500 \<le> snd (geoToScene lng lat) \<and> snd (geoToScene lng lat) \<le> 500)
   \<and> (40.0 < lng \<longrightarrow> 500 < fst (geoToScene lng lat))
   \<and> (lng < 39.6 \<longrightarrow> fst (geoToScene lng lat) < - 500)
   \<and> (21.6 < lat \<longrightarrow> 500 < snd (geoToScene lng lat))
   \<and> (lat < 21.2 \<longrightarrow> snd (geoToScene lng lat) < - 500)"
  by (simp add: geoToScene_def map_bounds_def Let_def field_simps)

theorem geoToScene_affine_in_box_witness:
  "geoToScene 39.8 21.3 = (0, - 250) \<and> geoToScene 40.1 21.1 = (750, - 750)"
  using geoToScene_affine_in_box [of "39.8" "21.3"] geoToScene_affine_in_box [of "40.1" "21.1"]
  by (simp add: geoToScene_def map_bounds_def Let_def)

lemma sum_list_affine:
  "sum_list (map (\<lambda>p. (f p - a) / w * 1000 - 500) xs)
     = (sum_list (map f xs) - a * real (length xs)) / w * 1000 - 500 * real (length xs)"
  for a w :: real
  by (induction xs) (simp_all add: add_divide_distrib diff_divide_distrib algebra_simps)

lemma ringCenter_centroid:
  assumes "coords \<noteq> []"
  shows "ringCenter coords = Some (spec_centroid (map (\<lambda>(lng, lat). geoToScene lng lat) coords))"
proof -
  let ?n = "real (length coords)"
  have n: "?n \<noteq> 0" using assms by simp
  have fx: "map fst (map (\<lambda>(lng, lat). geoToScene lng lat) coords)
              = map (\<lambda>p. (fst p - 39.6) / (40.0 - 39.6) * 1000 - 500) coords"
    by (simp add: geoToScene_def map_bounds_def Let_def case_prod_beta)
  have fz: "map snd (map (\<lambda>(lng, lat). geoToScene lng lat) coords)
              = map (\<lambda>p. (snd p - 21.2) / (21.6 - 21.2) * 1000 - 500) coords"
    by (simp add: geoToScene_def map_bounds_def Let_def case_prod_beta)
  show ?thesis
    using n assms
    unfolding ringCenter_def spec_centroid_def fx fz sum_list_affine foldl_add_sum_list
    by (simp add: geoToScene_def map_bounds_def Let_def field_simps)
qed

lemma footprintLoop_Some:
  "footprintLoop fl c ps (Some a, Some b, Some e, Some d) =
     (Some (Min (insert a ((\<lambda>p. fl (fst (geoToSceneD fl (fl (fst p)) (fl (snd p))) - fst c)) ` set ps))),
      Some (Max (insert b ((\<lambda>p. fl (fst (geoToSceneD fl (fl (fst p)) (fl (snd p))) - fst c)) ` set ps))),
      Some (Min (insert e ((\<lambda>p. fl (snd (geoToSceneD fl (fl (fst p)) (fl (snd p))) - snd c)) ` set ps))),
      Some (Max (insert d ((\<lambda>p. fl (snd (geoToSceneD fl (fl (fst p)) (fl (snd p))) - snd c)) ` set ps))))"
proof (induction ps arbitrary: a b e d)
  case Nil
  show ?case by simp
next
  case (Cons p ps)
  obtain lng lat where p: "p = (lng, lat)" by (cases p)
  have mn: "\<And>(u::real) v S. finite S \<Longrightarrow> Min (insert (min u v) S) = Min (insert u (insert v S))"
    by (metis Min.insert Min_singleton finite.insertI insert_not_empty min.assoc)
  have mx: "\<And>(u::real) v S. finite S \<Longrightarrow> Max (insert (max u v) S) = Max (insert u (insert v S))"
    by (metis Max.insert Max_singleton finite.insertI insert_not_empty max.assoc)
  show ?case
    by (simp add: p Let_def Cons.IH mn mx)
qed

lemma footprintLoop_init:
  assumes "coords \<noteq> []"
  shows "footprintLoop fl c coords (None, None, None, None) =
     (Some (Min ((\<lambda>p. fl (fst (geoToSceneD fl (fl (fst p)) (fl (snd p))) - fst c)) ` set coords)),
      Some (Max ((\<lambda>p. fl (fst (geoToSceneD fl (fl (fst p)) (fl (snd p))) - fst c)) ` set coords)),
      Some (Min ((\<lambda>p. fl (snd (geoToSceneD fl (fl (fst p)) (fl (snd p))) - snd c)) ` set coords)),
      Some (Max ((\<lambda>p. fl (snd (geoToSceneD fl (fl (fst p)) (fl (snd p))) - snd c)) ` set coords)))"
proof -
  obtain p ps where c: "coords = p # ps" using assms by (cases coords) auto
  obtain lng lat where p: "p = (lng, lat)" by (cases p)
  show ?thesis
    by (simp add: c p Let_def footprintLoop_Some)
qed

lemma footprintSize_rounded:
  assumes "coords \<noteq> []"
  shows "footprintSize fl coords = Some (spec_footprint_rounded fl coords)"
proof -
  obtain c where c: "ringCenterD fl coords = Some c"
    using assms by (simp add: ringCenterD_def Let_def)
  show ?thesis
    unfolding footprintSize_def spec_footprint_rounded_def c option.case
      footprintLoop_init [OF assms]
    by (simp add: Let_def)
qed

lemma geoToSceneD_exact: "geoToSceneD id lng lat = geoToScene lng lat"
  by (simp add: geoToSceneD_def geoToScene_def)

lemma ringCenterD_exact: "ringCenterD id coords = ringCenter coords"
  by (simp add: ringCenterD_def ringCenter_def geoToSceneD_exact)

lemma Max_shift:
  fixes f :: "'a \<Rightarrow> real"
  assumes "finite S" "S \<noteq> {}"
  shows "Max ((\<lambda>p. f p - k) ` S) = Max (f ` S) - k"
proof -
  have "mono (\<lambda>x::real. x - k)" by (simp add: mono_def)
  then have "(Max (f ` S)) - k = Max ((\<lambda>x. x - k) ` (f ` S))"
    using assms by (intro mono_Max_commute) auto
  then show ?thesis by (simp add: image_image)
qed

lemma Min_shift:
  fixes f :: "'a \<Rightarrow> real"
  assumes "finite S" "S \<noteq> {}"
  shows "Min ((\<lambda>p. f p - k) ` S) = Min (f ` S) - k"
proof -
  have "mono (\<lambda>x::real. x - k)" by (simp add: mono_def)
  then have "(Min (f ` S)) - k = Min ((\<lambda>x. x - k) ` (f ` S))"
    using assms by (intro mono_Min_commute) auto
  then show ?thesis by (simp add: image_image)
qed

lemma spec_footprint_exact:
  assumes "coords \<noteq> []"
  shows "spec_footprint_rounded id coords = spec_footprint coords"
proof -
  have s: "finite (set coords)" "set coords \<noteq> {}" using assms by auto
  obtain c where c: "ringCenter coords = Some c"
    using assms by (simp add: ringCenter_def Let_def)
  show ?thesis
    unfolding spec_footprint_rounded_def spec_footprint_def ringCenterD_exact c option.case
    by (simp add: geoToSceneD_exact Max_shift [OF s] Min_shift [OF s])
qed

lemma addBuilding_polygon:
  assumes "geometry b = Polygon (coords # rest)" "coords \<noteq> []"
  shows "addBuilding fl b =
           Some \<lparr> shape = map (\<lambda>(lng, lat).
                     (fst (geoToScene lng lat) - fst (the (ringCenter coords)),
                      snd (geoToScene lng lat) - snd (the (ringCenter coords)))) coords,
                  depth = scaledHeight (buildingHeight b) (spec_footprint_rounded fl coords),
                  position = (fst (the (ringCenter coords)), 0, snd (the (ringCenter coords))) \<rparr>"
proof -
  obtain c where c: "ringCenter coords = Some c"
    using assms(2) by (simp add: ringCenter_def Let_def)
  show ?thesis
    by (simp add: addBuilding_def assms(1) c footprintSize_rounded [OF assms(2)])
qed

text \<open>
  Claim C2, as amended. The height scale is 0.3 below a footprint size of 5, 0.5 from 5 up
  to (not including) 15, 0.7 from 15 up to 30, and 1.0 from 30 on; it is monotonically
  non-decreasing; at 5, 15 and 30 it is 0.5, 0.7 and 1.0. The extrusion depth of a polygon
  building is the scale at its footprint size, as the code computes that size, times the
  height: the value of a string height, a numeric height other than 0, and 20 for a
  numeric height of 0. The computed footprint size is the larger side of the bounding box of
  the ring's offsets from the centre, and in exact arithmetic the larger side of the
  bounding box of the projected ring.
\<close>

theorem heightScale_step_function:
  "(F < 5 \<longrightarrow> heightScale F = 0.3)
   \<and> (5 \<le> F \<and> F < 15 \<longrightarrow> heightScale F = 0.5)
   \<and> (15 \<le> F \<and> F < 30 \<longrightarrow> heightScale F = 0.7)
   \<and> (30 \<le> F \<longrightarrow> heightScale F = 1.0)
   \<and> (F \<le> G \<longrightarrow> heightScale F \<le> heightScale G)
   \<and> heightScale 5 = 0.5 \<and> heightScale 15 = 0.7 \<and> heightScale 30 = 1.0
   \<and> (geometry b = Polygon (coords # rest) \<and> coords \<noteq> [] \<longrightarrow>
        (\<exists>m. addBuilding fl b = Some m
           \<and> footprintSize fl coords = Some (spec_footprint_rounded fl coords)
           \<and> (\<forall>v. height b = HeightString v \<longrightarrow>
                  depth m = v * heightScale (spec_footprint_rounded fl coords))
           \<and> (\<forall>v. height b = HeightNumber v \<and> v \<noteq> 0 \<longrightarrow>
                  depth m = v * heightScale (spec_footprint_rounded fl coords))
           \<and> (height b = HeightNumber 0 \<longrightarrow>
                  depth m = 20 * heightScale (spec_footprint_rounded fl coords)))
        \<and> spec_footprint_rounded id coords = spec_footprint coords)"
proof -
  have "\<exists>m. addBuilding fl b = Some m
           \<and> footprintSize fl coords = Some (spec_footprint_rounded fl coords)
           \<and> (\<forall>v. height b = HeightString v \<longrightarrow>
                  depth m = v * heightScale (spec_footprint_rounded fl coords))
           \<and> (\<forall>v. height b = HeightNumber v \<and> v \<noteq> 0 \<longrightarrow>
                  depth m = v * heightScale (spec_footprint_rounded fl coords))
           \<and> (height b = HeightNumber 0 \<longrightarrow>
                  depth m = 20 * heightScale (spec_footprint_rounded fl coords))"
    if "geometry b = Polygon (coords # rest)" "coords \<noteq> []"
    unfolding addBuilding_polygon [OF that] footprintSize_rounded [OF that(2)]
    by (simp add: scaledHeight_def buildingHeight_def)
  then show ?thesis
    using spec_footprint_exact [of coords] by (simp add: heightScale_def)
qed

lemma square_ring_nonempty: "square_ring \<noteq> []"
  by (simp add: square_ring_def)

lemma square_center: "ringCenter square_ring = Some (- 1, - 1)"
  by (simp add: square_ring_def ringCenter_def geoToScene_def map_bounds_def Let_def)

lemma square_footprint: "footprintSize id square_ring = Some 10"
  by (simp add: square_ring_def footprintSize_def ringCenterD_def geoToSceneD_def
        map_bounds_def Let_def)

lemma square_footprint_rounded: "spec_footprint_rounded id square_ring = 10"
proof -
  have "footprintSize id square_ring = Some (spec_footprint_rounded id square_ring)"
    by (rule footprintSize_rounded [OF square_ring_nonempty])
  then show ?thesis
    by (simp only: square_footprint option.inject)
qed

lemma square_geometry: "geometry square_building = Polygon (square_ring # [])"
  by (simp add: square_building_def)

lemma square_height: "buildingHeight square_building = 20"
  by (simp add: square_building_def buildingHeight_def)

lemma office_geometry: "geometry office_building = Polygon (square_ring # [])"
  by (simp add: office_building_def square_building_def)

lemma zero_height_geometry: "geometry zero_height_building = Polygon (square_ring # [])"
  by (simp add: zero_height_building_def square_building_def)

theorem heightScale_step_function_witness:
  "heightScale 4 = 0.3 \<and> heightScale 10 = 0.5 \<and> heightScale 20 = 0.7 \<and> heightScale 40 = 1.0
   \<and> heightScale 4 \<le> heightScale 40
   \<and> footprintSize id square_ring = Some 10
   \<and> spec_footprint square_ring = 10
   \<and> height office_building = HeightNumber 60
   \<and> (\<exists>m. addBuilding id office_building = Some m \<and> depth m = 30)
   \<and> height square_building = HeightString 20
   \<and> (\<exists>m. addBuilding id square_building = Some m \<and> depth m = 10)
   \<and> height zero_height_building = HeightNumber 0
   \<and> (\<exists>m. addBuilding id zero_height_building = Some m \<and> depth m = 10)"
proof -
  have ho: "height office_building = HeightNumber 60"
    by (simp add: office_building_def)
  have hs: "height square_building = HeightString 20"
    by (simp add: square_building_def)
  have hz: "height zero_height_building = HeightNumber 0"
    by (simp add: zero_height_building_def)
  have s10: "heightScale 10 = 0.5"
    using heightScale_step_function [of 10 40] by simp
  have o: "\<exists>m. addBuilding id office_building = Some m \<and> depth m = 30"
    using heightScale_step_function [of 10 40 office_building square_ring "[]" id]
    by (auto simp add: office_geometry square_ring_nonempty ho square_footprint_rounded)
  have s: "\<exists>m. addBuilding id square_building = Some m \<and> depth m = 10"
    using heightScale_step_function [of 10 40 square_building square_ring "[]" id]
    by (auto simp add: square_geometry square_ring_nonempty hs square_footprint_rounded)
  have z: "\<exists>m. addBuilding id zero_height_building = Some m \<and> depth m = 10"
    using heightScale_step_function [of 10 40 zero_height_building square_ring "[]" id]
    by (auto simp add: zero_height_geometry square_ring_nonempty hz square_footprint_rounded)
  have f: "spec_footprint square_ring = 10"
    using heightScale_step_function [of 10 40 square_building square_ring "[]" id]
    by (simp add: square_geometry square_ring_nonempty square_footprint_rounded)
  have "heightScale 4 = 0.3 \<and> heightScale 4 \<le> heightScale 40"
    using heightScale_step_function [of 4 40] by simp
  moreover have "heightScale 20 = 0.7"
    using heightScale_step_function [of 20 40] by simp
  moreover have "heightScale 40 = 1.0"
    using heightScale_step_function [of 40 40] by simp
  ultimately show ?thesis
    using o s z f s10 ho hs hz square_footprint by simp
qed

text \<open>
  Claim C2 as stated fails in its last sentence: a building whose height is the number 0
  is extruded to 10 (20 times the scale 0.5 of its footprint size 10), not to 0 times the
  scale.
\<close>

theorem extrusion_zero_height_counterexample:
  "height zero_height_building = HeightNumber 0
   \<and> spec_real_height zero_height_building = 0
   \<and> footprintSize id square_ring = Some 10
   \<and> heightScale 10 = 0.5
   \<and> map_option depth (addBuilding id zero_height_building) = Some 10
   \<and> spec_real_height zero_height_building * heightScale 10 = 0"
proof -
  have hz: "height zero_height_building = HeightNumber 0"
    by (simp add: zero_height_building_def)
  have "buildingHeight zero_height_building = 20"
    by (simp add: buildingHeight_def hz)
  then have "map_option depth (addBuilding id zero_height_building) = Some 10"
    unfolding addBuilding_polygon [OF zero_height_geometry square_ring_nonempty]
    by (simp add: scaledHeight_def square_footprint_rounded heightScale_def)
  then show ?thesis
    using square_footprint by (simp add: hz spec_real_height_def heightScale_def)
qed

text \<open>
  Claim C9. For a polygon with a non-empty ring, the centre that places the extruded mesh
  (the projection of the mean longitude and mean latitude) is the centroid of the projected
  ring vertices. Over the reals the two are equal, because the projection is affine.
\<close>

theorem footprint_center_is_centroid:
  assumes "geometry b = Polygon (coords # rest)" and "coords \<noteq> []"
  shows "ringCenter coords = Some (spec_centroid (map (\<lambda>(lng, lat). geoToScene lng lat) coords))
    \<and> (\<exists>m. addBuilding fl b = Some m
          \<and> position m =
               (fst (spec_centroid (map (\<lambda>(lng, lat). geoToScene lng lat) coords)), 0,
                snd (spec_centroid (map (\<lambda>(lng, lat). geoToScene lng lat) coords))))"
  using addBuilding_polygon [OF assms] ringCenter_centroid [OF assms(2)] by simp

theorem footprint_center_is_centroid_witness:
  "spec_centroid (map (\<lambda>(lng, lat). geoToScene lng lat) square_ring) = (- 1, - 1)
   \<and> (\<exists>m. addBuilding id square_building = Some m \<and> position m = (- 1, 0, - 1))"
proof -
  note t = footprint_center_is_centroid [OF square_geometry square_ring_nonempty, of id]
  have c: "spec_centroid (map (\<lambda>(lng, lat). geoToScene lng lat) square_ring) = (- 1, - 1)"
    using t square_center by simp
  show ?thesis
    using t unfolding c by simp
qed

lemma cos_sin_45_sq: "(cos (pi / 4))\<^sup>2 + (sin (pi / 4))\<^sup>2 = 1"
  by simp

lemma flyToBuilding_polygon:
  assumes "geometry b = Polygon (coords # rest)" and "coords \<noteq> []"
    and "ringCenter coords = Some (cx, cz)"
    and "footprintSize fl coords = Some F"
    and "sh = buildingHeight b * heightScale F"
    and "d = max (max F sh * 2.5) 30"
  shows "flyToBuilding fl b (Some v) =
           Some (v \<lparr> cameraPosition := (cx - d * cos (pi / 4), sh + d * sin (pi / 4), cz + d * sin (pi / 4)),
                     controlsTarget := (cx, sh / 2, cz) \<rparr>)"
  using assms(3-6)
  by (simp add: flyToBuilding_def assms(1) scaledHeight_def Let_def)

text \<open>
  Claim C6, as amended. \<^verbatim>\<open>flyToBuilding\<close> puts the camera at
  \<open>(cx - d cos 45\<degree>, sh + d sin 45\<degree>, cz + d sin 45\<degree>)\<close> with
  \<open>d = max (max F sh * 2.5) 30\<close>: at horizontal distance \<open>d\<close> from the projected
  centre \<open>(cx, cz)\<close> and \<open>d sin 45\<degree>\<close> above the scaled height \<open>sh\<close>. The look-at target is
  \<open>(cx, sh / 2, cz)\<close>. Here \<open>F\<close> is the footprint size as the code computes it, whatever the
  rounding, and \<open>sh\<close> is the building height times the height scale at \<open>F\<close>.
\<close>

theorem flyToBuilding_camera:
  assumes "geometry b = Polygon (coords # rest)" and "coords \<noteq> []"
    and "ringCenter coords = Some (cx, cz)"
    and "footprintSize fl coords = Some F"
    and "sh = buildingHeight b * heightScale F"
    and "d = max (max F sh * 2.5) 30"
  shows "\<exists>v'. flyToBuilding fl b (Some v) = Some v'
           \<and> cameraPosition v' =
                 (cx - d * cos (pi / 4), sh + d * sin (pi / 4), cz + d * sin (pi / 4))
           \<and> distXZ (cameraPosition v') (cx, 0, cz) = d
           \<and> controlsTarget v' = (cx, sh / 2, cz)"
proof -
  have d: "0 \<le> d" using assms(6) by simp
  have "(d * cos (pi / 4))\<^sup>2 + (d * sin (pi / 4))\<^sup>2 = d\<^sup>2 * ((cos (pi / 4))\<^sup>2 + (sin (pi / 4))\<^sup>2)"
    by (simp only: power_mult_distrib distrib_left)
  then have "sqrt ((d * cos (pi / 4))\<^sup>2 + (d * sin (pi / 4))\<^sup>2) = d"
    using d by (simp only: cos_sin_45_sq mult_1_right real_sqrt_abs abs_of_nonneg)
  then show ?thesis
    unfolding flyToBuilding_polygon [OF assms]
    by (simp add: distXZ_def)
qed

lemma framing_needs_zero_distance:
  assumes "distXZ cam centre = d" and "d \<noteq> 0"
  shows "\<not> spec_fly_to_framing cam centre d"
proof
  assume f: "spec_fly_to_framing cam centre d"
  obtain px py pz where cam: "cam = (px, py, pz)" by (cases cam)
  obtain qx qy qz where centre: "centre = (qx, qy, qz)" by (cases centre)
  let ?h = "(px - qx)\<^sup>2 + (pz - qz)\<^sup>2"
  have run: "sqrt ?h = d"
    using assms(1) by (simp add: distXZ_def cam centre)
  have rise: "py - qy = d"
    using f assms(1) by (simp add: spec_fly_to_framing_def cam centre)
  have "?h + (py - qy)\<^sup>2 = (px - qx)\<^sup>2 + (py - qy)\<^sup>2 + (pz - qz)\<^sup>2"
    by simp
  moreover have "dist3 cam centre = d"
    using f by (simp add: spec_fly_to_framing_def)
  ultimately have "sqrt (?h + (py - qy)\<^sup>2) = d"
    by (simp only: dist3_def cam centre prod.case)
  then have "sqrt (?h + (py - qy)\<^sup>2) = sqrt ?h"
    using run by simp
  then have "?h + (py - qy)\<^sup>2 = ?h"
    by (simp only: real_sqrt_eq_iff)
  then have "py - qy = 0" by simp
  then show False using rise assms(2) by simp
qed

theorem flyToBuilding_camera_witness:
  "\<exists>v'. flyToBuilding id square_building (Some initial_view) = Some v'
      \<and> cameraPosition v' = (- 1 - 30 * cos (pi / 4), 10 + 30 * sin (pi / 4), - 1 + 30 * sin (pi / 4))
      \<and> distXZ (cameraPosition v') (- 1, 0, - 1) = 30
      \<and> controlsTarget v' = (- 1, 5, - 1)"
proof -
  have sh: "(10::real) = buildingHeight square_building * heightScale 10"
    by (simp add: square_height heightScale_def)
  have d: "(30::real) = max (max 10 10 * 2.5) 30"
    by simp
  show ?thesis
    using flyToBuilding_camera
        [OF square_geometry square_ring_nonempty square_center square_footprint sh d,
        of initial_view]
    by simp
qed

text \<open>
  Claim C6 as stated fails: for the square building the camera is at horizontal distance 30
  from the centre, so whichever height the centre is given (ground, half height, top), the
  camera is not at distance 30 under an elevation of 45 degrees.
\<close>

theorem fly_to_framing_counterexample:
  "flyToBuilding id square_building (Some initial_view) =
     Some \<lparr> cameraPosition = (- 1 - 30 * cos (pi / 4), 10 + 30 * sin (pi / 4), - 1 + 30 * sin (pi / 4)),
            controlsTarget = (- 1, 5, - 1) \<rparr>
   \<and> \<not> spec_fly_to_framing
         (- 1 - 30 * cos (pi / 4), 10 + 30 * sin (pi / 4), - 1 + 30 * sin (pi / 4)) (- 1, 0, - 1) 30
   \<and> \<not> spec_fly_to_framing
         (- 1 - 30 * cos (pi / 4), 10 + 30 * sin (pi / 4), - 1 + 30 * sin (pi / 4)) (- 1, 5, - 1) 30
   \<and> \<not> spec_fly_to_framing
         (- 1 - 30 * cos (pi / 4), 10 + 30 * sin (pi / 4), - 1 + 30 * sin (pi / 4)) (- 1, 10, - 1) 30"
proof -
  have sh: "(10::real) = buildingHeight square_building * heightScale 10"
    by (simp add: square_height heightScale_def)
  have d: "(30::real) = max (max 10 10 * 2.5) 30"
    by simp
  have fly: "flyToBuilding id square_building (Some initial_view) =
     Some \<lparr> cameraPosition = (- 1 - 30 * cos (pi / 4), 10 + 30 * sin (pi / 4), - 1 + 30 * sin (pi / 4)),
            controlsTarget = (- 1, 5, - 1) \<rparr>"
    unfolding flyToBuilding_polygon
        [OF square_geometry square_ring_nonempty square_center square_footprint sh d]
    by (simp add: initial_view_def)
  have "(30 * cos (pi / 4))\<^sup>2 + (30 * sin (pi / 4))\<^sup>2 = (30::real)\<^sup>2 * ((cos (pi / 4))\<^sup>2 + (sin (pi / 4))\<^sup>2)"
    by (simp only: power_mult_distrib distrib_left)
  then have r: "sqrt ((30 * cos (pi / 4))\<^sup>2 + (30 * sin (pi / 4))\<^sup>2) = 30"
    by (simp only: cos_sin_45_sq mult_1_right real_sqrt_abs)
  have run: "distXZ (- 1 - 30 * cos (pi / 4), 10 + 30 * sin (pi / 4), - 1 + 30 * sin (pi / 4))
               (- 1, y, - 1) = 30" for y :: real
    using r by (simp add: distXZ_def)
  show ?thesis
    using fly framing_needs_zero_distance [OF run] by simp
qed

section \<open>The classifier is a first-match decision list\<close>

declare ms.simps(7) [simp del]

lemma anyOf_simps [simp]:
  "anyOf m [] = False"
  "anyOf m (w # ws) = (includes m w \<or> anyOf m ws)"
  by (simp_all add: anyOf_def)

lemma run_handler_if:
  "run_handler (if c then a else b) pool m = (if c then run_handler a pool m else run_handler b pool m)"
  by simp

lemma intent_case_if:
  "(case (if c then a else b) of Some (i, trigger) \<Rightarrow> i | None \<Rightarrow> Help)
     = (if c then (case a of Some (i, trigger) \<Rightarrow> i | None \<Rightarrow> Help)
        else (case b of Some (i, trigger) \<Rightarrow> i | None \<Rightarrow> (Help::intent)))"
  by simp

lemma processQuery_classify:
  "processQuery pool m = run_handler (spec_classify (toLowerCase m)) pool m"
  unfolding processQuery_def spec_classify_def spec_intent_table_def Let_def
  by (simp add: run_handler_if intent_case_if split del: if_split cong: if_cong)

lemma processQuery_tallest:
  "includes (toLowerCase m) ''tallest'' \<Longrightarrow> processQuery pool m = getTallestBuilding pool"
  unfolding processQuery_def Let_def by (simp split del: if_split cong: if_cong)

text \<open>
  Claim C1. \<^verbatim>\<open>processQuery\<close> runs the handler of the first intent, in the priority order
  tallest, shortest, top-N, compare, height-range, type-distribution, search, statistics,
  nearby, specific-building, address-search, count, whose trigger holds of the lower-cased
  message, and the help text if none does. In particular a message that contains both
  "tallest" and "how many" is answered by the tallest handler.
\<close>

theorem processQuery_first_match:
  "processQuery pool m = run_handler (spec_classify (toLowerCase m)) pool m
   \<and> (includes (toLowerCase m) ''tallest'' \<and> includes (toLowerCase m) ''how many''
        \<longrightarrow> processQuery pool m = getTallestBuilding pool)"
  using processQuery_classify processQuery_tallest by simp

theorem processQuery_first_match_witness:
  "includes (toLowerCase ''How many buildings? which is the TALLEST'') ''tallest''
   \<and> includes (toLowerCase ''How many buildings? which is the TALLEST'') ''how many''
   \<and> spec_classify (toLowerCase ''How many buildings? which is the TALLEST'') = Tallest
   \<and> processQuery two_rows_pool ''How many buildings? which is the TALLEST''
         = getTallestBuilding two_rows_pool"
proof -
  have a: "includes (toLowerCase ''How many buildings? which is the TALLEST'') ''tallest''"
    by code_simp
  have b: "includes (toLowerCase ''How many buildings? which is the TALLEST'') ''how many''"
    by code_simp
  have c: "spec_classify (toLowerCase ''How many buildings? which is the TALLEST'') = Tallest"
    by code_simp
  show ?thesis
    using processQuery_first_match [of two_rows_pool "''How many buildings? which is the TALLEST''"]
      a b c by simp
qed

section \<open>Store failures become apologies\<close>




















section \<open>The routes\<close>

text \<open>
  Claim C8, as amended. \<^verbatim>\<open>POST /api/chat\<close> answers 400, with the error text, exactly when
  \<^verbatim>\<open>message\<close> is not a non-empty string (missing, not a string, or the empty string); for
  every non-empty string it answers 200 with the response of \<^verbatim>\<open>processQuery\<close>.
\<close>

theorem post_chat_status:
  "(status (post_chat pool reqBody) = 400
      \<longleftrightarrow> \<not> (\<exists>s. s \<noteq> [] \<and> map_of reqBody ''message'' = Some (JString s)))
   \<and> (status (post_chat pool reqBody) = 400
      \<longrightarrow> body (post_chat pool reqBody) = ErrorBody ''Message is required and must be a string'')
   \<and> (\<forall>s. s \<noteq> [] \<and> map_of reqBody ''message'' = Some (JString s)
      \<longrightarrow> post_chat pool reqBody = \<lparr> status = 200, body = ChatBody (snd (processQuery pool s)) \<rparr>)"
proof (cases "map_of reqBody ''message''")
  case None
  then show ?thesis by (simp add: post_chat_def)
next
  case (Some v)
  then show ?thesis by (cases v) (simp_all add: post_chat_def)
qed

theorem post_chat_status_witness:
  "status (post_chat failing_pool [(''message'', JNumber 123)]) = 400
   \<and> status (post_chat failing_pool []) = 400
   \<and> body (post_chat failing_pool [(''message'', JNumber 123)])
        = ErrorBody ''Message is required and must be a string''
   \<and> post_chat failing_pool [(''message'', JString ''hello'')]
        = \<lparr> status = 200, body = ChatBody (snd (processQuery failing_pool ''hello'')) \<rparr>"
proof -
  have n: "\<not> (\<exists>s. s \<noteq> [] \<and> map_of [(''message'', JNumber 123)] ''message'' = Some (JString s))"
    by simp
  have e: "\<not> (\<exists>s. s \<noteq> [] \<and> map_of ([] :: (string \<times> json) list) ''message'' = Some (JString s))"
    by simp
  have h: "''hello'' \<noteq> [] \<and> map_of [(''message'', JString ''hello'')] ''message'' = Some (JString ''hello'')"
    by simp
  show ?thesis
    using post_chat_status [of failing_pool "[(''message'', JNumber 123)]"]
      post_chat_status [of failing_pool "[]"]
      post_chat_status [of failing_pool "[(''message'', JString ''hello'')]"]
      n e h
    by blast
qed

text \<open>
  Claim C8 as stated fails: the empty string is a string and is present, so the stated
  rule does not reject it, yet the route answers 400.
\<close>

theorem post_chat_empty_string_counterexample:
  "map_of [(''message'', JString [])] ''message'' = Some (JString [])
   \<and> \<not> spec_chat_rejects [(''message'', JString [])]
   \<and> post_chat two_rows_pool [(''message'', JString [])]
        = \<lparr> status = 400, body = ErrorBody ''Message is required and must be a string'' \<rparr>"
  by (simp add: post_chat_def spec_chat_rejects_def)

lemma dispatch_skip:
  assumes "dispatch ((pat, h) # routes) path = Some (h', ps)" and "h \<noteq> h'"
  shows "matchRoute pat path = None \<and> dispatch routes path = Some (h', ps)"
  using assms by (cases "matchRoute pat path") auto

lemma fixed_random_needs_segment:
  assumes "matchRoute [Fixed ''random''] path \<noteq> None"
  shows "matchRoute [Param ''id''] path \<noteq> None"
proof -
  obtain s where p: "path = [s]" and l: "toLowerCase s = toLowerCase ''random''"
    using assms
    by (cases path; cases "tl path") (auto split: if_splits)
  have "s \<noteq> []" using l by (auto simp: toLowerCase_def)
  then show ?thesis by (simp add: p)
qed

lemma random_route_shadowed:
  "dispatch buildings_routes path \<noteq> Some (GetRandom, params)"
proof
  assume a: "dispatch buildings_routes path = Some (GetRandom, params)"
  note s1 = dispatch_skip [OF a [unfolded buildings_routes_def]]
  note s2 = dispatch_skip [OF conjunct2 [OF s1]]
  note s3 = dispatch_skip [OF conjunct2 [OF s2]]
  note s4 = dispatch_skip [OF conjunct2 [OF s3]]
  note s5 = dispatch_skip [OF conjunct2 [OF s4]]
  note s6 = dispatch_skip [OF conjunct2 [OF s5]]
  have n: "matchRoute [Param ''id''] path = None" using s6 by simp
  have d: "dispatch [([Fixed ''random''], GetRandom), ([Fixed ''type'', Param ''buildingType''], GetByType)] path
             = Some (GetRandom, params)"
    using s6 by simp
  have "matchRoute [Fixed ''random''] path = None"
    using fixed_random_needs_segment [of path] n by blast
  then show False using d by (auto split: option.splits)
qed

text \<open>
  Claim C5 on the code. The path \<^verbatim>\<open>/random\<close> is dispatched to the route \<^verbatim>\<open>/:id\<close>, which
  is registered before \<^verbatim>\<open>/random\<close>, with \<open>id = random\<close>. On a store with an integer
  \<open>id\<close> column the by-id query fails and the answer is 500; in no case is it a sample.
\<close>

theorem random_route_served_by_id:
  "dispatch buildings_routes (splitPath ''/random'' []) = Some (GetById, [(''id'', ''random'')])
   \<and> getBuildingById integer_id_pool ''random''
       = ([(selectBuildings @ '' WHERE id = $1'', [PText ''random''])],
          \<lparr> status = 500, body = ErrorBody ''invalid input syntax for type integer: random'' \<rparr>)
   \<and> status (snd (getBuildingById two_rows_pool ''random'')) = 200
   \<and> body (snd (getBuildingById two_rows_pool ''random'')) = RowBody building_b"
proof -
  have a: "dispatch buildings_routes (splitPath ''/random'' []) = Some (GetById, [(''id'', ''random'')])"
    by code_simp
  have b: "getBuildingById integer_id_pool ''random''
       = ([(selectBuildings @ '' WHERE id = $1'', [PText ''random''])],
          \<lparr> status = 500, body = ErrorBody ''invalid input syntax for type integer: random'' \<rparr>)"
    by (simp add: getBuildingById_def integer_id_pool_def isDigit_def)
  have c: "status (snd (getBuildingById two_rows_pool ''random'')) = 200
   \<and> body (snd (getBuildingById two_rows_pool ''random'')) = RowBody building_b"
    by (simp add: getBuildingById_def two_rows_pool_def)
  show ?thesis using a b c by simp
qed

section \<open>The height filter of the search handler\<close>

text \<open>
  A match of the over or of the under pattern ends with a match of the single-height
  pattern. So where the single-height pattern finds nothing, neither of them does: the two
  last branches of the height filter are never taken.
\<close>

lemma ms_suffix:
  "(s', c') \<in> set (ms ic r s caps) \<Longrightarrow> \<exists>pre. s = pre @ s'"
proof (induction ic r s caps arbitrary: s' c' rule: ms.induct)
  case (1 ic c s caps)
  then show ?case by (cases s) (auto split: if_splits)
next
  case (2 ic s caps)
  then show ?case by (cases s) (auto split: if_splits)
next
  case (3 ic s caps)
  then show ?case by (cases s) (auto split: if_splits)
next
  case (4 ic s caps)
  then show ?case by simp
next
  case (5 ic r1 r2 s caps)
  from "5.prems" obtain t ct where t: "(t, ct) \<in> set (ms ic r1 s caps)"
    and u: "(s', c') \<in> set (ms ic r2 t ct)"
    by auto
  from "5.IH"(1) [OF t] obtain p1 where p1: "s = p1 @ t" by auto
  from "5.IH"(2) [OF t refl u] obtain p2 where p2: "t = p2 @ s'" by auto
  show ?case using p1 p2 by (intro exI [of _ "p1 @ p2"]) simp
next
  case (6 ic r1 r2 s caps)
  then show ?case by auto
next
  case (7 ic r s caps)
  from "7.prems" have "(s', c') = (s, caps) \<or>
      (\<exists>t ct. (t, ct) \<in> set (ms ic r s caps) \<and> length t < length s
          \<and> (s', c') \<in> set (ms ic (Star r) t ct))"
    by (subst (asm) ms.simps(7)) (auto split: if_splits)
  then show ?case
  proof
    assume "(s', c') = (s, caps)"
    then show ?thesis by (intro exI [of _ "[]"]) simp
  next
    assume "\<exists>t ct. (t, ct) \<in> set (ms ic r s caps) \<and> length t < length s
          \<and> (s', c') \<in> set (ms ic (Star r) t ct)"
    then obtain t ct where t: "(t, ct) \<in> set (ms ic r s caps)" and l: "length t < length s"
      and u: "(s', c') \<in> set (ms ic (Star r) t ct)"
      by blast
    from "7.IH"(1) [OF t] obtain p1 where p1: "s = p1 @ t" by auto
    from "7.IH"(2) [OF t refl l u] obtain p2 where p2: "t = p2 @ s'" by auto
    show ?thesis using p1 p2 by (intro exI [of _ "p1 @ p2"]) simp
  qed
next
  case (8 ic n r s caps)
  then show ?case by auto
qed

lemma ms_rests_independent:
  "map fst (ms ic r s caps) = map fst (ms ic r s caps')"
proof (induction ic r s caps arbitrary: caps' rule: ms.induct)
  case (1 ic c s caps)
  then show ?case by (cases s) simp_all
next
  case (2 ic s caps)
  then show ?case by (cases s) simp_all
next
  case (3 ic s caps)
  then show ?case by (cases s) simp_all
next
  case (4 ic s caps)
  then show ?case by simp
next
  case (5 ic r1 r2 s caps)
  let ?G = "\<lambda>t. map fst (ms ic r2 t caps)"
  have a: "map fst (concat (map (\<lambda>(s', c'). ms ic r2 s' c') xs)) = concat (map ?G (map fst xs))"
    if "set (map fst xs) \<subseteq> set (map fst (ms ic r1 s caps))" for xs
    using that
  proof (induction xs)
    case Nil
    then show ?case by simp
  next
    case (Cons x xs)
    obtain t ct where x: "x = (t, ct)" by (cases x)
    obtain ct0 where m: "(t, ct0) \<in> set (ms ic r1 s caps)" using Cons.prems x by auto
    have "map fst (ms ic r2 t ct) = map fst (ms ic r2 t ct0)"
      using "5.IH"(2) [OF m refl, of ct] by simp
    also have "\<dots> = ?G t"
      using "5.IH"(2) [OF m refl, of caps] by simp
    finally show ?case using Cons by (simp add: x)
  qed
  have e: "map fst (ms ic r1 s caps') = map fst (ms ic r1 s caps)"
    using "5.IH"(1) [of caps'] by simp
  show ?case
    using a [of "ms ic r1 s caps"] a [of "ms ic r1 s caps'"] e by simp
next
  case (6 ic r1 r2 s caps)
  show ?case using "6.IH"(1) [of caps'] "6.IH"(2) [of caps'] by simp
next
  case (7 ic r s caps)
  let ?F = "\<lambda>(s', c'). if length s' < length s then ms ic (Star r) s' c' else []"
  let ?G = "\<lambda>t. if length t < length s then map fst (ms ic (Star r) t caps) else []"
  have a: "map fst (concat (map ?F xs)) = concat (map ?G (map fst xs))"
    if "set (map fst xs) \<subseteq> set (map fst (ms ic r s caps))" for xs
    using that
  proof (induction xs)
    case Nil
    then show ?case by simp
  next
    case (Cons x xs)
    obtain t ct where x: "x = (t, ct)" by (cases x)
    obtain ct0 where m: "(t, ct0) \<in> set (ms ic r s caps)" using Cons.prems x by auto
    have "map fst (?F (t, ct)) = ?G t"
    proof (cases "length t < length s")
      case True
      have "map fst (ms ic (Star r) t ct) = map fst (ms ic (Star r) t ct0)"
        using "7.IH"(2) [OF m refl True, of ct] by simp
      also have "\<dots> = map fst (ms ic (Star r) t caps)"
        using "7.IH"(2) [OF m refl True, of caps] by simp
      finally show ?thesis using True by simp
    next
      case False
      then show ?thesis by simp
    qed
    then show ?case using Cons by (simp add: x)
  qed
  have e: "map fst (ms ic r s caps') = map fst (ms ic r s caps)"
    using "7.IH"(1) [of caps'] by simp
  show ?case
    unfolding ms.simps(7) [of ic r s caps] ms.simps(7) [of ic r s caps']
    using a [of "ms ic r s caps"] a [of "ms ic r s caps'"] e by simp
next
  case (8 ic n r s caps)
  show ?case using "8.IH" [of caps'] by (simp add: comp_def case_prod_beta)
qed

lemma ms_nonempty_independent:
  "ms ic r s caps \<noteq> [] \<Longrightarrow> ms ic r s caps' \<noteq> []"
  using ms_rests_independent [of ic r s caps caps'] by (metis map_is_Nil_conv)

lemma regexMatch_None_iff:
  "regexMatch ic r n s = None \<longleftrightarrow> (\<forall>pre t. s = pre @ t \<longrightarrow> ms ic r t (replicate (Suc n) None) = [])"
proof (induction s)
  case Nil
  show ?case by (auto split: list.splits simp del: replicate.simps)
next
  case (Cons x s)
  have "(\<forall>pre t. x # s = pre @ t \<longrightarrow> ms ic r t (replicate (Suc n) None) = [])
        \<longleftrightarrow> ms ic r (x # s) (replicate (Suc n) None) = []
            \<and> (\<forall>pre t. s = pre @ t \<longrightarrow> ms ic r t (replicate (Suc n) None) = [])"
    by (auto simp add: append_eq_Cons_conv Cons_eq_append_conv simp del: replicate.simps)
  then show ?case
    using Cons.IH by (auto split: list.splits simp del: replicate.simps)
qed

lemma seq_tail_matches:
  assumes "ms ic (Seq a b) s caps \<noteq> []"
  shows "\<exists>pre t ct. s = pre @ t \<and> ms ic b t ct \<noteq> []"
proof -
  from assms obtain t ct where t: "(t, ct) \<in> set (ms ic a s caps)" and n: "ms ic b t ct \<noteq> []"
    by auto
  from ms_suffix [OF t] obtain pre where "s = pre @ t" by auto
  then show ?thesis using n by blast
qed

lemma prefixed_pattern_needs_tail:
  assumes "regexMatch ic b n s = None"
  shows "regexMatch ic (Seq w (Seq sp b)) n s = None"
proof (rule ccontr)
  assume "regexMatch ic (Seq w (Seq sp b)) n s \<noteq> None"
  then obtain p0 t0 where s0: "s = p0 @ t0"
    and m0: "ms ic (Seq w (Seq sp b)) t0 (replicate (Suc n) None) \<noteq> []"
    unfolding regexMatch_None_iff by blast
  from seq_tail_matches [OF m0] obtain p1 t1 c1 where s1: "t0 = p1 @ t1"
    and m1: "ms ic (Seq sp b) t1 c1 \<noteq> []" by blast
  from seq_tail_matches [OF m1] obtain p2 t2 c2 where s2: "t1 = p2 @ t2"
    and m2: "ms ic b t2 c2 \<noteq> []" by blast
  have "s = (p0 @ p1 @ p2) @ t2" using s0 s1 s2 by simp
  moreover have "ms ic b t2 (replicate (Suc n) None) \<noteq> []"
    using ms_nonempty_independent [OF m2] .
  ultimately show False
    using assms unfolding regexMatch_None_iff by blast
qed

lemma over_under_need_single:
  assumes "regexMatch True single_re 1 m = None"
  shows "regexMatch True over_re 1 m = None \<and> regexMatch True under_re 1 m = None"
proof -
  have o: "over_re = Seq (lits ''over'') (Seq (Plus Space) single_re)"
    by (simp add: over_re_def single_re_def)
  have u: "under_re = Seq (lits ''under'') (Seq (Plus Space) single_re)"
    by (simp add: under_re_def single_re_def)
  show ?thesis
    unfolding o u using prefixed_pattern_needs_tail [OF assms] by blast
qed

text \<open>
  Claim C4 on the code. For "find buildings under 100 meters" the single query filters by
  \<open>height >= 100\<close>, and for "find buildings over 300 meters" by \<open>height >= 300\<close>: the
  single-height pattern matches first, so the over and under branches are not taken.
\<close>

theorem search_under_over_filter:
  "fst (searchBuildings two_rows_pool ''find buildings under 100 meters'')
     = [(selectBuildings @ '' WHERE 1=1 AND height >= $1 ORDER BY height DESC LIMIT 10'', [PNumber 100])]
   \<and> fst (searchBuildings two_rows_pool ''find buildings over 300 meters'')
     = [(selectBuildings @ '' WHERE 1=1 AND height >= $1 ORDER BY height DESC LIMIT 10'', [PNumber 300])]"
  by code_simp

section \<open>Case-insensitivity\<close>

lemma lowerChar_idem: "lowerChar (lowerChar c) = lowerChar c"
proof -
  have "(of_char c :: nat) < 256" by simp
  then show ?thesis
    by (auto simp add: lowerChar_def Let_def)
qed

lemma canonicalize_lowerChar: "canonicalize (lowerChar c) = canonicalize c"
proof -
  have "(of_char c :: nat) < 256" by simp
  then show ?thesis
    by (auto simp add: lowerChar_def canonicalize_def Let_def)
qed

lemma isDigit_lowerChar: "isDigit (lowerChar c) = isDigit c"
  by (auto simp add: lowerChar_def isDigit_def Let_def)

lemma isSpace_lowerChar: "isSpace (lowerChar c) = isSpace c"
  by (auto simp add: lowerChar_def isSpace_def Let_def)

lemma lowerChar_digit: "isDigit c \<Longrightarrow> lowerChar c = c"
  by (auto simp add: lowerChar_def isDigit_def Let_def)

lemma toLowerCase_idem: "toLowerCase (toLowerCase s) = toLowerCase s"
  by (simp add: toLowerCase_def lowerChar_idem)

lemma toLowerCase_digits: "list_all isDigit s \<Longrightarrow> toLowerCase s = s"
  by (induction s) (simp_all add: toLowerCase_def lowerChar_digit)

lemma ms_lower:
  "ic \<Longrightarrow> ms ic r (map lowerChar s) (lowerCaps caps) = map lowerResult (ms ic r s caps)"
proof (induction ic r s caps rule: ms.induct)
  case (1 ic c s caps)
  then show ?case
    by (cases s) (simp_all add: litMatches_def canonicalize_lowerChar lowerResult_def)
next
  case (2 ic s caps)
  then show ?case by (cases s) (simp_all add: isDigit_lowerChar lowerResult_def)
next
  case (3 ic s caps)
  then show ?case by (cases s) (simp_all add: isSpace_lowerChar lowerResult_def)
next
  case (4 ic s caps)
  then show ?case by (simp add: lowerResult_def)
next
  case (5 ic r1 r2 s caps)
  let ?F = "\<lambda>(s', caps'). ms ic r2 s' caps'"
  let ?xs = "ms ic r1 s caps"
  have step: "map (\<lambda>x. ?F (lowerResult x)) ?xs = map (\<lambda>x. map lowerResult (?F x)) ?xs"
  proof (rule map_cong [OF refl])
    fix x assume x: "x \<in> set ?xs"
    obtain s' c' where xe: "x = (s', c')" by (cases x)
    show "?F (lowerResult x) = map lowerResult (?F x)"
      using "5.IH"(2) [OF x xe [symmetric] \<open>ic\<close>] \<open>ic\<close> by (simp add: xe lowerResult_def)
  qed
  have "ms ic (Seq r1 r2) (map lowerChar s) (lowerCaps caps)
          = concat (map ?F (map lowerResult ?xs))"
    using "5.IH"(1) [OF \<open>ic\<close>] by simp
  also have "\<dots> = concat (map (\<lambda>x. ?F (lowerResult x)) ?xs)"
    by (simp add: comp_def)
  also have "\<dots> = concat (map (\<lambda>x. map lowerResult (?F x)) ?xs)"
    by (simp only: step)
  also have "\<dots> = map lowerResult (concat (map ?F ?xs))"
    by (simp add: map_concat comp_def)
  finally show ?case by simp
next
  case (6 ic r1 r2 s caps)
  then show ?case by simp
next
  case (7 ic r s caps)
  let ?F = "\<lambda>n (s', caps'). if length s' < n then ms ic (Star r) s' caps' else []"
  let ?xs = "ms ic r s caps"
  have step: "map (\<lambda>x. ?F (length (map lowerChar s)) (lowerResult x)) ?xs
                = map (\<lambda>x. map lowerResult (?F (length s) x)) ?xs"
  proof (rule map_cong [OF refl])
    fix x assume x: "x \<in> set ?xs"
    obtain s' c' where xe: "x = (s', c')" by (cases x)
    show "?F (length (map lowerChar s)) (lowerResult x) = map lowerResult (?F (length s) x)"
    proof (cases "length s' < length s")
      case True
      show ?thesis
        using "7.IH"(2) [OF x xe [symmetric] True \<open>ic\<close>] True
        by (simp add: xe lowerResult_def del: ms.simps)
    next
      case False
      then show ?thesis by (simp add: xe lowerResult_def del: ms.simps)
    qed
  qed
  have "ms ic (Star r) (map lowerChar s) (lowerCaps caps)
          = concat (map (?F (length (map lowerChar s))) (ms ic r (map lowerChar s) (lowerCaps caps)))
            @ [(map lowerChar s, lowerCaps caps)]"
    by (fact ms.simps(7))
  also have "\<dots> = concat (map (?F (length (map lowerChar s))) (map lowerResult ?xs))
            @ [(map lowerChar s, lowerCaps caps)]"
    by (simp only: "7.IH"(1) [OF \<open>ic\<close>])
  also have "concat (map (?F (length (map lowerChar s))) (map lowerResult ?xs))
               = concat (map (\<lambda>x. ?F (length (map lowerChar s)) (lowerResult x)) ?xs)"
    by (simp only: map_map comp_def)
  also have "\<dots> = concat (map (\<lambda>x. map lowerResult (?F (length s) x)) ?xs)"
    by (simp only: step)
  also have "\<dots> = map lowerResult (concat (map (?F (length s)) ?xs))"
    by (simp only: map_concat map_map comp_def)
  finally have "ms ic (Star r) (map lowerChar s) (lowerCaps caps)
      = map lowerResult (concat (map (?F (length s)) ?xs)) @ [lowerResult (s, caps)]"
    by (simp only: lowerResult_def fst_conv snd_conv)
  also have "\<dots> = map lowerResult (concat (map (?F (length s)) ?xs) @ [(s, caps)])"
    by (simp only: map_append list.map)
  also have "concat (map (?F (length s)) ?xs) @ [(s, caps)] = ms ic (Star r) s caps"
    by (rule ms.simps(7) [symmetric])
  finally show ?case .
next
  case (8 ic n r s caps)
  then show ?case
    by (simp add: case_prod_beta map_update take_map lowerResult_def lowerCaps_def comp_def)
qed

lemma lowerCaps_replicate: "lowerCaps (replicate n None) = replicate n None"
  by (simp add: lowerCaps_def)

lemma regexMatch_lower:
  "regexMatch True r n (toLowerCase s) = map_option lowerCaps (regexMatch True r n s)"
proof (induction s)
  case Nil
  have "ms True r [] (replicate (Suc n) None) = map lowerResult (ms True r [] (replicate (Suc n) None))"
    using ms_lower [of True r "[]" "replicate (Suc n) None"]
    by (simp only: lowerCaps_replicate list.map)
  then show ?case
    by (cases "ms True r [] (replicate (Suc n) None)")
       (auto simp add: toLowerCase_def lowerResult_def lowerCaps_def map_update
             simp del: replicate.simps)
next
  case (Cons x s)
  have m: "ms True r (map lowerChar (x # s)) (replicate (Suc n) None)
             = map lowerResult (ms True r (x # s) (replicate (Suc n) None))"
    using ms_lower [of True r "x # s" "replicate (Suc n) None"]
    by (simp only: lowerCaps_replicate)
  show ?case
  proof (cases "ms True r (x # s) (replicate (Suc n) None)")
    case Nil
    then show ?thesis
      using m Cons.IH
      by (simp add: toLowerCase_def del: replicate.simps)
  next
    case (Cons p ps)
    obtain rest caps where p: "p = (rest, caps)" by (cases p)
    have "take k (map lowerChar (x # s)) = map lowerChar (take k (x # s))" for k
      by (rule take_map)
    then have tk: "take k (lowerChar x # map lowerChar s) = map lowerChar (take k (x # s))" for k
      by simp
    show ?thesis
      using m Cons
      by (simp add: p toLowerCase_def lowerResult_def lowerCaps_def map_update tk
               del: replicate.simps)
  qed
qed

lemma digits_only_prefix:
  "digits_only r \<Longrightarrow> (s', c') \<in> set (ms ic r s caps)
     \<Longrightarrow> \<exists>pre. s = pre @ s' \<and> list_all isDigit pre"
proof (induction ic r s caps arbitrary: s' c' rule: ms.induct)
  case (1 ic c s caps)
  then show ?case by simp
next
  case (2 ic s caps)
  then show ?case by (cases s) (auto split: if_splits)
next
  case (3 ic s caps)
  then show ?case by simp
next
  case (4 ic s caps)
  then show ?case by simp
next
  case (5 ic r1 r2 s caps)
  from "5.prems" obtain t ct where t: "(t, ct) \<in> set (ms ic r1 s caps)"
    and u: "(s', c') \<in> set (ms ic r2 t ct)"
    by auto
  from "5.IH"(1) [OF _ t] "5.prems"(1) obtain p1 where p1: "s = p1 @ t" "list_all isDigit p1"
    by auto
  from "5.IH"(2) [OF t refl _ u] "5.prems"(1) obtain p2 where p2: "t = p2 @ s'" "list_all isDigit p2"
    by auto
  show ?case using p1 p2 by (intro exI [of _ "p1 @ p2"]) simp
next
  case (6 ic r1 r2 s caps)
  then show ?case by auto
next
  case (7 ic r s caps)
  from "7.prems"(2) have "(s', c') = (s, caps) \<or>
      (\<exists>t ct. (t, ct) \<in> set (ms ic r s caps) \<and> length t < length s
          \<and> (s', c') \<in> set (ms ic (Star r) t ct))"
    by (subst (asm) ms.simps(7)) (auto split: if_splits)
  then show ?case
  proof
    assume "(s', c') = (s, caps)"
    then show ?thesis by (intro exI [of _ "[]"]) simp
  next
    assume "\<exists>t ct. (t, ct) \<in> set (ms ic r s caps) \<and> length t < length s
          \<and> (s', c') \<in> set (ms ic (Star r) t ct)"
    then obtain t ct where t: "(t, ct) \<in> set (ms ic r s caps)" and l: "length t < length s"
      and u: "(s', c') \<in> set (ms ic (Star r) t ct)"
      by blast
    from "7.IH"(1) [OF _ t] "7.prems"(1) obtain p1 where p1: "s = p1 @ t" "list_all isDigit p1"
      by auto
    from "7.IH"(2) [OF t refl l "7.prems"(1) u] obtain p2 where p2: "t = p2 @ s'" "list_all isDigit p2"
      by auto
    show ?thesis using p1 p2 by (intro exI [of _ "p1 @ p2"]) simp
  qed
next
  case (8 ic n r s caps)
  then show ?case by auto
qed

lemma digit_caps_update:
  "digit_caps caps \<Longrightarrow> list_all isDigit t \<Longrightarrow> digit_caps (caps[n := Some t])"
  unfolding digit_caps_def using set_update_subset_insert [of caps n "Some t"] by auto

lemma ms_digit_caps:
  "groups_capture_digits r \<Longrightarrow> digit_caps caps \<Longrightarrow> (s', c') \<in> set (ms ic r s caps)
     \<Longrightarrow> digit_caps c'"
proof (induction ic r s caps arbitrary: s' c' rule: ms.induct)
  case (1 ic c s caps)
  then show ?case by (cases s) (auto split: if_splits)
next
  case (2 ic s caps)
  then show ?case by (cases s) (auto split: if_splits)
next
  case (3 ic s caps)
  then show ?case by (cases s) (auto split: if_splits)
next
  case (4 ic s caps)
  then show ?case by simp
next
  case (5 ic r1 r2 s caps)
  from "5.prems" obtain t ct where t: "(t, ct) \<in> set (ms ic r1 s caps)"
    and u: "(s', c') \<in> set (ms ic r2 t ct)"
    by auto
  have "digit_caps ct" using "5.IH"(1) [OF _ "5.prems"(2) t] "5.prems"(1) by simp
  then show ?case using "5.IH"(2) [OF t refl _ _ u] "5.prems"(1) by simp
next
  case (6 ic r1 r2 s caps)
  then show ?case by auto
next
  case (7 ic r s caps)
  from "7.prems"(3) have "(s', c') = (s, caps) \<or>
      (\<exists>t ct. (t, ct) \<in> set (ms ic r s caps) \<and> length t < length s
          \<and> (s', c') \<in> set (ms ic (Star r) t ct))"
    by (subst (asm) ms.simps(7)) (auto split: if_splits)
  then show ?case
  proof
    assume "(s', c') = (s, caps)"
    then show ?thesis using "7.prems"(2) by simp
  next
    assume "\<exists>t ct. (t, ct) \<in> set (ms ic r s caps) \<and> length t < length s
          \<and> (s', c') \<in> set (ms ic (Star r) t ct)"
    then obtain t ct where t: "(t, ct) \<in> set (ms ic r s caps)" and l: "length t < length s"
      and u: "(s', c') \<in> set (ms ic (Star r) t ct)"
      by blast
    have "digit_caps ct" using "7.IH"(1) [OF _ "7.prems"(2) t] "7.prems"(1) by simp
    then show ?thesis using "7.IH"(2) [OF t refl l "7.prems"(1) _ u] by simp
  qed
next
  case (8 ic n r s caps)
  from "8.prems"(3) obtain ct where t: "(s', ct) \<in> set (ms ic r s caps)"
    and c: "c' = ct[n := Some (take (length s - length s') s)]"
    by auto
  have d: "digit_caps ct" using "8.IH" [OF _ "8.prems"(2) t] "8.prems"(1) by simp
  obtain pre where pre: "s = pre @ s'" "list_all isDigit pre"
    using digits_only_prefix [OF _ t] "8.prems"(1) by auto
  have "take (length s - length s') s = pre" using pre(1) by simp
  then show ?case using digit_caps_update [OF d pre(2)] c by simp
qed

lemma digit_caps_replicate: "digit_caps (replicate n None)"
  by (simp add: digit_caps_def)

lemma regexMatch_digit_groups:
  "groups_capture_digits r \<Longrightarrow> regexMatch ic r n s = Some m \<Longrightarrow> 0 < k
     \<Longrightarrow> list_all isDigit (grp m k)"
proof (induction s)
  case Nil
  then obtain rest caps ps where m: "ms ic r [] (replicate (Suc n) None) = (rest, caps) # ps"
    and e: "m = caps[0 := Some (take (length ([]::string) - length rest) [])]"
    by (auto split: list.splits simp del: replicate.simps)
  have "digit_caps caps"
    using ms_digit_caps [OF Nil.prems(1) digit_caps_replicate, of rest caps ic "[]" "Suc n"] m
    by simp
  then show ?case
    using Nil.prems(3) unfolding e grp_def digit_caps_def
    by (auto split: option.splits simp: nth_list_update dest: nth_mem)
next
  case (Cons x s)
  show ?case
  proof (cases "ms ic r (x # s) (replicate (Suc n) None)")
    case Nil
    then show ?thesis using Cons by (simp del: replicate.simps)
  next
    case ms: (Cons p ps)
    obtain rest caps where p: "p = (rest, caps)" by (cases p)
    have e: "m = caps[0 := Some (take (length (x # s) - length rest) (x # s))]"
      using Cons.prems(2) ms p by (simp del: replicate.simps)
    have "digit_caps caps"
      using ms_digit_caps [OF Cons.prems(1) digit_caps_replicate, of rest caps ic "x # s" "Suc n"] ms p
      by simp
    then show ?thesis
      using Cons.prems(3) unfolding e grp_def digit_caps_def
      by (auto split: option.splits simp: nth_list_update dest: nth_mem)
  qed
qed

lemma grp_lowerCaps: "grp (lowerCaps m) k = toLowerCase (grp m k)"
  by (auto simp add: grp_def lowerCaps_def toLowerCase_def split: option.splits)

lemma regexMatch_lower_groups:
  assumes "groups_capture_digits r"
  shows "(regexMatch True r n s = None \<and> regexMatch True r n (toLowerCase s) = None)
    \<or> (\<exists>m m'. regexMatch True r n s = Some m \<and> regexMatch True r n (toLowerCase s) = Some m'
          \<and> grp m' 1 = grp m 1 \<and> grp m' 2 = grp m 2)"
proof (cases "regexMatch True r n s")
  case None
  then show ?thesis by (simp only: regexMatch_lower) simp
next
  case (Some m)
  have "grp (lowerCaps m) k = grp m k" if "0 < k" for k
    using regexMatch_digit_groups [OF assms Some that] by (simp add: grp_lowerCaps toLowerCase_digits)
  then show ?thesis
    using Some by (simp only: regexMatch_lower) simp
qed

lemma patterns_capture_digits:
  "groups_capture_digits range_re" "groups_capture_digits single_re"
  "groups_capture_digits over_re" "groups_capture_digits under_re"
  "groups_capture_digits top_re"
  by (simp_all add: range_re_def single_re_def over_re_def under_re_def top_re_def unit_re_def
        Plus_def Opt_def lits_def)

lemma Let_option: "Let (Some v) f = f (Some v)" "Let None f = f None"
  by (simp_all add: Let_def)

lemma getHeightRangeAnalysis_lower:
  "getHeightRangeAnalysis pool (toLowerCase m) = getHeightRangeAnalysis pool m"
proof -
  note r1 = regexMatch_lower_groups [OF patterns_capture_digits(1), of 2 m]
  show ?thesis
    unfolding getHeightRangeAnalysis_def
    using r1
    by (elim disjE conjE exE) (simp_all only: option.case Let_option)
qed

lemma searchBuildings_lower:
  "searchBuildings pool (toLowerCase m) = searchBuildings pool m"
proof -
  note r1 = regexMatch_lower_groups [OF patterns_capture_digits(1), of 2 m]
  note r2 = regexMatch_lower_groups [OF patterns_capture_digits(2), of 1 m]
  note r3 = regexMatch_lower_groups [OF patterns_capture_digits(3), of 1 m]
  note r4 = regexMatch_lower_groups [OF patterns_capture_digits(4), of 1 m]
  show ?thesis
    unfolding searchBuildings_def toLowerCase_idem
    using r1 r2 r3 r4
    by (elim disjE conjE exE) (simp_all only: option.case option.map Let_option)
qed

lemma compareBuildings_lower: "compareBuildings pool (toLowerCase m) = compareBuildings pool m"
  by (simp only: compareBuildings_def toLowerCase_idem)

lemma getSpecificBuilding_lower: "getSpecificBuilding pool (toLowerCase m) = getSpecificBuilding pool m"
  by (simp only: getSpecificBuilding_def toLowerCase_idem)

lemma searchByAddress_lower: "searchByAddress pool (toLowerCase m) = searchByAddress pool m"
  by (simp only: searchByAddress_def toLowerCase_idem)

lemma getBuildingCount_lower: "getBuildingCount pool (toLowerCase m) = getBuildingCount pool m"
  by (simp only: getBuildingCount_def toLowerCase_idem)

lemma getNearbyBuildings_lower: "getNearbyBuildings pool (toLowerCase m) = getNearbyBuildings pool m"
  by (simp only: getNearbyBuildings_def)

lemmas handlers_lower =
  compareBuildings_lower getHeightRangeAnalysis_lower searchBuildings_lower
  getSpecificBuilding_lower searchByAddress_lower getBuildingCount_lower getNearbyBuildings_lower

lemma run_handler_lower: "run_handler i pool (toLowerCase m) = run_handler i pool m"
  by (cases i) (simp_all only: run_handler.simps handlers_lower toLowerCase_idem)

text \<open>
  Claim C10. \<^verbatim>\<open>processQuery\<close> on the lower-cased message sends the same queries with
  the same parameters and returns the same response as on the message itself; the intent
  selected is the same, and each handler on its own is insensitive to case as well. The
  triggers test the lower-cased text and every pattern carries the \<^verbatim>\<open>i\<close> flag.
\<close>

theorem processQuery_case_insensitive:
  "processQuery pool (toLowerCase m) = processQuery pool m
   \<and> spec_classify (toLowerCase (toLowerCase m)) = spec_classify (toLowerCase m)
   \<and> run_handler i pool (toLowerCase m) = run_handler i pool m
   \<and> fst (processQuery pool (toLowerCase m)) = fst (processQuery pool m)
   \<and> snd (processQuery pool (toLowerCase m)) = snd (processQuery pool m)"
proof -
  have "processQuery pool (toLowerCase m) = processQuery pool m"
    by (simp only: processQuery_def handlers_lower toLowerCase_idem)
  then show ?thesis
    by (simp only: run_handler_lower toLowerCase_idem)
qed

theorem processQuery_case_insensitive_witness:
  "toLowerCase ''FIND Hotel buildings OVER 50M'' = ''find hotel buildings over 50m''
   \<and> processQuery two_rows_pool ''find hotel buildings over 50m''
       = processQuery two_rows_pool ''FIND Hotel buildings OVER 50M''"
proof -
  have l: "toLowerCase ''FIND Hotel buildings OVER 50M'' = ''find hotel buildings over 50m''"
    by code_simp
  show ?thesis
    using processQuery_case_insensitive [of two_rows_pool "''FIND Hotel buildings OVER 50M''"]
    unfolding l by simp
qed

end
